theory Spec2Isabelle
  imports Main "HOL-Library.Word" "HOL-Library.Sublist"
begin

text \<open>
  The asynchronous pipeline of the player: the frame callback, the worker loops and the
  controller of \<^verbatim>\<open>async.c\<close>, and the reorder list, the buffer-count governor and the packet
  submission of the hardware decoder. Functions are state transformers on records of the
  C structures; what other threads and libraries answer is passed in; a call that waits
  on a condition variable ends in \<open>Blocked\<close>. The message queue and the client's
  get-frame call are not among the sources: they follow the specification.
\<close>

section \<open>Values shared by the pipeline\<close>

text \<open>
  \<^verbatim>\<open>int64_t\<close> timestamps are 64-bit words compared as two's complement numbers
  (\<open><s\<close>, \<open>\<le>s\<close>), as C compares them. Return codes and the \<^verbatim>\<open>int\<close> counters are
  mathematical integers: the code only adds small deltas to them, and signed overflow is
  undefined in C.
\<close>

type_synonym int64 = "64 word"

definition AV_NOPTS_VALUE :: int64 where
  "AV_NOPTS_VALUE = 0x8000000000000000"

text \<open>libavutil's error codes: \<^verbatim>\<open>FFERRTAG('E','O','F',' ')\<close>, \<^verbatim>\<open>FFERRTAG('E','X','T',' ')\<close>
  and \<^verbatim>\<open>AVERROR(e) = -e\<close>.\<close>

definition AVERROR_EOF :: int where
  "AVERROR_EOF = - 541478725"

definition AVERROR_EXTERNAL :: int where
  "AVERROR_EXTERNAL = - 542398533"

definition AVERROR :: "int \<Rightarrow> int" where
  "AVERROR e = - e"

definition ENOMEM :: int where
  "ENOMEM = 12"

definition EAGAIN :: int where
  "EAGAIN = 11"

text \<open>
  A call returns a result \<open>r\<close> in state \<open>s\<close> (\<open>Done r s\<close>), or waits in state \<open>s\<close> on a
  condition variable that only another thread can signal (\<open>Blocked s\<close>), or reads memory
  it must not read (\<open>Fault\<close>: a null or an uninitialised pointer).
\<close>

datatype ('r, 's) outcome = Done 'r 's | Blocked 's | Fault

record AVRational =
  num :: int
  den :: int

record AVFrame =
  pts :: int64
  best_effort_timestamp :: int64
  data_id :: nat

record AVPacket =
  pkt_pts :: int64
  pkt_size :: int
  pkt_data :: nat

section \<open>The bounded message queue\<close>

text \<open>
  Modelled from the spec: the bounded message queue, libavutil's
  \<^verbatim>\<open>AVThreadMessageQueue\<close>, which is not under src/. A FIFO of fixed capacity with a
  send-side and a receive-side error latch (0 when unset). \<^verbatim>\<open>send\<close> waits while there is
  no room and no send latch, then fails with the latch if it is set; \<^verbatim>\<open>recv\<close> waits while
  the queue is empty and no receive latch is set, and fails with the latch only on an
  empty queue; \<^verbatim>\<open>flush\<close> releases every pending item.
\<close>

record 'a AVThreadMessageQueue =
  fifo :: "'a list"
  nelem :: nat
  err_send :: int
  err_recv :: int

definition av_thread_message_queue_alloc :: "nat \<Rightarrow> 'a AVThreadMessageQueue" where
  "av_thread_message_queue_alloc n = \<lparr>fifo = [], nelem = n, err_send = 0, err_recv = 0\<rparr>"

definition av_thread_message_queue_send ::
  "'a AVThreadMessageQueue \<Rightarrow> 'a \<Rightarrow> (int, 'a AVThreadMessageQueue) outcome" where
  "av_thread_message_queue_send q msg =
     (if err_send q = 0 \<and> nelem q \<le> length (fifo q) then Blocked q
      else if err_send q \<noteq> 0 then Done (err_send q) q
      else Done 0 (q\<lparr>fifo := fifo q @ [msg]\<rparr>))"

definition av_thread_message_queue_recv ::
  "'a AVThreadMessageQueue \<Rightarrow> (int \<times> 'a option, 'a AVThreadMessageQueue) outcome" where
  "av_thread_message_queue_recv q =
     (if err_recv q = 0 \<and> fifo q = [] then Blocked q
      else (case fifo q of
              [] \<Rightarrow> Done (err_recv q, None) q
            | m # ms \<Rightarrow> Done (0, Some m) (q\<lparr>fifo := ms\<rparr>)))"

definition av_thread_message_flush :: "'a AVThreadMessageQueue \<Rightarrow> 'a AVThreadMessageQueue" where
  "av_thread_message_flush q = q\<lparr>fifo := []\<rparr>"

definition av_thread_message_queue_set_err_send ::
  "'a AVThreadMessageQueue \<Rightarrow> int \<Rightarrow> 'a AVThreadMessageQueue" where
  "av_thread_message_queue_set_err_send q e = q\<lparr>err_send := e\<rparr>"

definition av_thread_message_queue_set_err_recv ::
  "'a AVThreadMessageQueue \<Rightarrow> int \<Rightarrow> 'a AVThreadMessageQueue" where
  "av_thread_message_queue_set_err_recv q e = q\<lparr>err_recv := e\<rparr>"

section \<open>The decoder worker's frame callback (async.c)\<close>

datatype message = MSG_PACKET AVPacket | MSG_SEEK int64

text \<open>
  \<^verbatim>\<open>struct async_decoder\<close>, with the fields the frame path and the message loop use
  (its \<^verbatim>\<open>started\<close> flag is \<open>dec_started\<close> here, the reader has a field of that name too).
  \<open>freed_frames\<close> is not a field of the struct: it logs the frames handed to
  \<^verbatim>\<open>av_frame_free\<close>, in order.
\<close>

record async_decoder =
  dec_started :: int
  pkt_queue :: "message AVThreadMessageQueue"
  frames_queue :: "AVFrame AVThreadMessageQueue"
  max_packets_queue :: nat
  max_frames_queue :: nat
  st_timebase :: AVRational
  tmp_frame :: "AVFrame option"
  seek_request :: int64
  freed_frames :: "AVFrame list"

text \<open>
  \<^verbatim>\<open>av_rescale_q_rnd(a, bq, AV_TIME_BASE_Q, 0)\<close> belongs to libavutil; the functions that
  call it take it as the parameter \<open>rs\<close>, applied to the timestamp and the stream's
  time base.
\<close>

type_synonym rescale = "int64 \<Rightarrow> AVRational \<Rightarrow> int64"

definition get_best_effort_ts :: "AVFrame \<Rightarrow> int64" where
  "get_best_effort_ts f =
     (let t = best_effort_timestamp f in if t \<noteq> AV_NOPTS_VALUE then t else pts f)"

definition queue_frame :: "async_decoder \<Rightarrow> AVFrame \<Rightarrow> (int, async_decoder) outcome" where
  "queue_frame d frame =
     (case av_thread_message_queue_send (frames_queue d) frame of
        Blocked q \<Rightarrow> Blocked (d\<lparr>frames_queue := q\<rparr>)
      | Fault \<Rightarrow> Fault
      | Done ret q \<Rightarrow>
          if ret < 0
          then Done ret (d\<lparr>frames_queue := av_thread_message_queue_set_err_recv q ret\<rparr>)
          else Done ret (d\<lparr>frames_queue := q\<rparr>))"

definition queue_cached_frame :: "rescale \<Rightarrow> async_decoder \<Rightarrow> (int, async_decoder) outcome" where
  "queue_cached_frame rs d =
     (case tmp_frame d of
        None \<Rightarrow> Fault
      | Some prev_frame \<Rightarrow>
          let cached_ts = rs (get_best_effort_ts prev_frame) (st_timebase d)
          in queue_frame (d\<lparr>tmp_frame := None\<rparr>) (prev_frame\<lparr>pts := cached_ts\<rparr>))"

definition async_queue_frame ::
  "rescale \<Rightarrow> async_decoder \<Rightarrow> AVFrame option \<Rightarrow> (int, async_decoder) outcome" where
  "async_queue_frame rs d frame_opt =
     (case frame_opt of
        None \<Rightarrow>
          (if tmp_frame d \<noteq> None then
             (case queue_cached_frame rs d of
                Done ret d' \<Rightarrow> if ret < 0 then Done ret d' else Done AVERROR_EOF d'
              | Blocked d' \<Rightarrow> Blocked d'
              | Fault \<Rightarrow> Fault)
           else Done AVERROR_EOF d)
      | Some frame \<Rightarrow>
          let ts = rs (get_best_effort_ts frame) (st_timebase d) in
          if seek_request d \<noteq> AV_NOPTS_VALUE \<and> ts <s seek_request d then
            Done 0 (d\<lparr>freed_frames :=
                         freed_frames d @ (case tmp_frame d of None \<Rightarrow> [] | Some t \<Rightarrow> [t]),
                       tmp_frame := Some frame\<rparr>)
          else
            let frame1 = frame\<lparr>pts := ts\<rparr> in
            if tmp_frame d \<noteq> None then
              (case queue_cached_frame rs d of
                 Done ret d' \<Rightarrow>
                   if ret < 0 then Done ret d'
                   else queue_frame (d'\<lparr>seek_request := AV_NOPTS_VALUE\<rparr>) frame1
               | Blocked d' \<Rightarrow> Blocked d'
               | Fault \<Rightarrow> Fault)
            else
              let frame2 =
                    (if seek_request d \<noteq> AV_NOPTS_VALUE \<and> 0 <s seek_request d
                        \<and> seek_request d <s pts frame1
                     then frame1\<lparr>pts := seek_request d\<rparr> else frame1)
              in queue_frame (d\<lparr>seek_request := AV_NOPTS_VALUE\<rparr>) frame2)"

text \<open>
  A decoder hands its frames to \<^verbatim>\<open>async_queue_frame\<close> one after the other. The run below
  is that sequence of calls; it ends with the first call that fails or waits.
\<close>

fun deliver_frames ::
  "rescale \<Rightarrow> async_decoder \<Rightarrow> AVFrame option list \<Rightarrow> (int, async_decoder) outcome" where
  "deliver_frames rs d [] = Done 0 d"
| "deliver_frames rs d (f # fs) =
     (case async_queue_frame rs d f of
        Done ret d' \<Rightarrow> if ret < 0 then Done ret d' else deliver_frames rs d' fs
      | Blocked d' \<Rightarrow> Blocked d'
      | Fault \<Rightarrow> Fault)"

text \<open>The state a call ends in, returned or waiting.\<close>

fun state_of :: "('r, 's) outcome \<Rightarrow> 's option" where
  "state_of (Done r s) = Some s"
| "state_of (Blocked s) = Some s"
| "state_of Fault = None"

section \<open>The packet queue: seek messages and the two worker loops (async.c)\<close>

text \<open>
  \<^verbatim>\<open>push_seek_message\<close>; \<open>malloc_ok\<close> tells whether \<^verbatim>\<open>av_malloc\<close> gave the message its
  payload.
\<close>

definition push_seek_message ::
  "bool \<Rightarrow> message AVThreadMessageQueue \<Rightarrow> int64 \<Rightarrow> (int, message AVThreadMessageQueue) outcome" where
  "push_seek_message malloc_ok q ts =
     (if \<not> malloc_ok then Done (AVERROR ENOMEM) q
      else
        let q1 = av_thread_message_flush q in
        (case av_thread_message_queue_send q1 (MSG_SEEK ts) of
           Blocked q2 \<Rightarrow> Blocked q2
         | Fault \<Rightarrow> Fault
         | Done ret q2 \<Rightarrow>
             if ret < 0 then Done ret (av_thread_message_queue_set_err_recv q2 ret)
             else Done ret q2))"

datatype loop_ctl = Continue | Break int

text \<open>
  One turn of \<^verbatim>\<open>decoder_thread\<close>'s packet loop. \<^verbatim>\<open>decoder_push_packet\<close> and
  \<^verbatim>\<open>decoder_flush\<close> dispatch to the decoder in use and are not under src/: they are
  parameters here, acting on the codec's state \<open>c\<close> and, through \<^verbatim>\<open>async_queue_frame\<close>,
  on the decoder worker's.
\<close>

definition decoder_thread_iter ::
  "('c \<Rightarrow> async_decoder \<Rightarrow> AVPacket \<Rightarrow> (int, 'c \<times> async_decoder) outcome) \<Rightarrow>
   ('c \<Rightarrow> async_decoder \<Rightarrow> (unit, 'c \<times> async_decoder) outcome) \<Rightarrow>
   'c \<Rightarrow> async_decoder \<Rightarrow> (loop_ctl, 'c \<times> async_decoder) outcome" where
  "decoder_thread_iter decoder_push_packet decoder_flush c d =
     (case av_thread_message_queue_recv (pkt_queue d) of
        Blocked q \<Rightarrow> Blocked (c, d\<lparr>pkt_queue := q\<rparr>)
      | Fault \<Rightarrow> Fault
      | Done (ret, m) q \<Rightarrow>
          if ret < 0
          then Done (Break ret) (c, d\<lparr>pkt_queue := av_thread_message_queue_set_err_send q ret\<rparr>)
          else
            (case m of
               None \<Rightarrow> Fault
             | Some (MSG_SEEK seek_ts) \<Rightarrow>
                 (case decoder_flush c (d\<lparr>pkt_queue := q\<rparr>) of
                    Done u (c', d1) \<Rightarrow>
                      Done Continue
                        (c', d1\<lparr>freed_frames := freed_frames d1 @ fifo (frames_queue d1),
                                frames_queue := av_thread_message_flush (frames_queue d1),
                                seek_request := seek_ts\<rparr>)
                  | Blocked s \<Rightarrow> Blocked s
                  | Fault \<Rightarrow> Fault)
             | Some (MSG_PACKET pkt) \<Rightarrow>
                 (case decoder_push_packet c (d\<lparr>pkt_queue := q\<rparr>) pkt of
                    Done ret' (c', d1) \<Rightarrow>
                      if ret' < 0 then Done (Break ret') (c', d1) else Done Continue (c', d1)
                  | Blocked s \<Rightarrow> Blocked s
                  | Fault \<Rightarrow> Fault)))"

text \<open>
  \<^verbatim>\<open>struct async_reader\<close>. \<open>tid_running\<close> is not a field of the struct: it tells whether
  the thread of \<^verbatim>\<open>tid\<close> has been created and not joined.
\<close>

record async_reader =
  started :: int
  request_seek :: int64
  decoder :: async_decoder
  tid_running :: bool

text \<open>
  What the world answers during one turn of the reader's loop: the mutex calls, the
  allocations, the source's seek callback and its packet callback.
\<close>

record reader_env =
  lock_ret :: int
  unlock_ret :: int
  malloc_ok :: bool
  seek_cb :: "int64 \<Rightarrow> int"
  pull_packet_cb :: "int \<times> AVPacket"
  memdup_ok :: bool





text \<open>
  The packet queue under both workers. The reader flushes and then sends inside
  \<^verbatim>\<open>push_seek_message\<close> (two separate queue operations: \<open>seek_pending\<close> holds the target
  in between), sends packets and latches the receive side; the decoder receives and
  latches the send side. A run applies such operations in any order; an operation that
  would wait, or that the reader cannot be at, is not enabled.
\<close>

record pktq_state =
  pq :: "message AVThreadMessageQueue"
  seek_pending :: "int64 option"

datatype pktq_op =
    Reader_flush int64
  | Reader_send_seek
  | Reader_send_packet AVPacket
  | Reader_set_err_recv int
  | Decoder_recv
  | Decoder_set_err_send int

definition pktq_sent ::
  "pktq_state \<Rightarrow> (int, message AVThreadMessageQueue) outcome \<Rightarrow> pktq_state option" where
  "pktq_sent s r =
     (case r of
        Done ret q \<Rightarrow>
          Some (s\<lparr>pq := (if ret < 0 then av_thread_message_queue_set_err_recv q ret else q),
                  seek_pending := None\<rparr>)
      | Blocked q \<Rightarrow> None
      | Fault \<Rightarrow> None)"

definition pktq_apply :: "pktq_state \<Rightarrow> pktq_op \<Rightarrow> pktq_state option" where
  "pktq_apply s op =
     (case op of
        Reader_flush ts \<Rightarrow>
          (if seek_pending s = None
           then Some (s\<lparr>pq := av_thread_message_flush (pq s), seek_pending := Some ts\<rparr>)
           else None)
      | Reader_send_seek \<Rightarrow>
          (case seek_pending s of
             None \<Rightarrow> None
           | Some ts \<Rightarrow> pktq_sent s (av_thread_message_queue_send (pq s) (MSG_SEEK ts)))
      | Reader_send_packet pkt \<Rightarrow>
          (if seek_pending s = None
           then pktq_sent s (av_thread_message_queue_send (pq s) (MSG_PACKET pkt))
           else None)
      | Reader_set_err_recv e \<Rightarrow>
          (if seek_pending s = None
           then Some (s\<lparr>pq := av_thread_message_queue_set_err_recv (pq s) e\<rparr>)
           else None)
      | Decoder_recv \<Rightarrow>
          (case av_thread_message_queue_recv (pq s) of
             Done (ret, m) q \<Rightarrow>
               Some (s\<lparr>pq := (if ret < 0 then av_thread_message_queue_set_err_send q ret else q)\<rparr>)
           | Blocked q \<Rightarrow> None
           | Fault \<Rightarrow> None)
      | Decoder_set_err_send e \<Rightarrow>
          Some (s\<lparr>pq := av_thread_message_queue_set_err_send (pq s) e\<rparr>))"

fun pktq_run :: "pktq_state \<Rightarrow> pktq_op list \<Rightarrow> pktq_state option" where
  "pktq_run s [] = Some s"
| "pktq_run s (op # ops) =
     (case pktq_apply s op of None \<Rightarrow> None | Some s' \<Rightarrow> pktq_run s' ops)"

definition pktq_init :: "nat \<Rightarrow> pktq_state" where
  "pktq_init n = \<lparr>pq = av_thread_message_queue_alloc n, seek_pending = None\<rparr>"

fun is_seek :: "message \<Rightarrow> bool" where
  "is_seek (MSG_SEEK ts) = True"
| "is_seek (MSG_PACKET pkt) = False"

section \<open>The controller: start, stop, wait, pop (async.c)\<close>

text \<open>
  \<^verbatim>\<open>struct async_context\<close>. The sink queue is a pointer: \<open>None\<close> is \<^verbatim>\<open>NULL\<close>.
  The controller's functions change the fields below and nothing else; what the worker
  threads write meanwhile is theirs.
\<close>

record async_context =
  reader :: async_reader
  sink_queue :: "AVFrame AVThreadMessageQueue option"

definition async_reader_seek :: "int \<Rightarrow> int \<Rightarrow> async_reader \<Rightarrow> int64 \<Rightarrow> int \<times> async_reader" where
  "async_reader_seek lock unlock r ts =
     (if AVERROR lock < 0 then (AVERROR lock, r)
      else
        let r1 = r\<lparr>request_seek := ts\<rparr> in
        if AVERROR unlock < 0 then (AVERROR unlock, r1) else (0, r1))"


text \<open>
  What the world answers to \<^verbatim>\<open>async_start\<close>: the queue allocation, the mutex calls of
  \<^verbatim>\<open>async_reader_seek\<close> and \<^verbatim>\<open>pthread_create\<close>.
\<close>

record start_env =
  alloc_ret :: int
  seek_lock_ret :: int
  seek_unlock_ret :: int
  create_ret :: int

text \<open>
  \<^verbatim>\<open>async_start\<close>. The context it returns is \<open>None\<close> where the code has freed it
  (\<^verbatim>\<open>av_freep(&actx)\<close> after a failed allocation of the sink queue).
\<close>

definition async_start :: "start_env \<Rightarrow> async_context \<Rightarrow> int64 \<Rightarrow> int \<times> async_context option" where
  "async_start env actx skip =
     (let r = reader actx in
      if started r \<noteq> 0 then (0, Some actx)
      else if alloc_ret env < 0 then (alloc_ret env, None)
      else
        let q = av_thread_message_queue_alloc 3;
            r1 = (if skip \<noteq> 0
                  then snd (async_reader_seek (seek_lock_ret env) (seek_unlock_ret env) r skip)
                  else r)
        in
          if create_ret env \<noteq> 0
          then (AVERROR (create_ret env), Some (actx\<lparr>reader := r1, sink_queue := Some q\<rparr>))
          else (0, Some (actx\<lparr>reader := r1\<lparr>tid_running := True, started := 1\<rparr>,
                              sink_queue := Some q\<rparr>)))"



definition async_pop_frame :: "async_context \<Rightarrow> (AVFrame option, async_context) outcome" where
  "async_pop_frame actx =
     (case sink_queue actx of
        None \<Rightarrow> Fault
      | Some q \<Rightarrow>
          (case av_thread_message_queue_recv q of
             Blocked q' \<Rightarrow> Blocked (actx\<lparr>sink_queue := Some q'\<rparr>)
           | Fault \<Rightarrow> Fault
           | Done (ret, m) q' \<Rightarrow>
               if ret < 0
               then Done None
                      (actx\<lparr>sink_queue := Some (av_thread_message_queue_set_err_send q' ret)\<rparr>)
               else
                 (case m of
                    None \<Rightarrow> Fault
                  | Some frame \<Rightarrow> Done (Some frame) (actx\<lparr>sink_queue := Some q'\<rparr>))))"

definition async_started :: "async_context \<Rightarrow> int" where
  "async_started actx = started (reader actx)"

section \<open>The client's get-frame adapter\<close>






section \<open>The buffer-count governor (the hardware decoder's file)\<close>

text \<open>
  \<^verbatim>\<open>struct bufcount_context\<close>. \<open>destroyed\<close> is not a field of the struct: it is set
  where the code destroys the mutex and frees the structure.
\<close>

record bufcount_context =
  refcount :: int
  refmax :: int
  destroyed :: bool

definition bufcount_create :: bufcount_context where
  "bufcount_create = \<lparr>refcount = 1, refmax = 3 + 1, destroyed = False\<rparr>"

definition bufcount_update_max :: "bufcount_context \<Rightarrow> int \<Rightarrow> bufcount_context" where
  "bufcount_update_max b n = b\<lparr>refmax := refmax b + n\<rparr>"

text \<open>
  \<^verbatim>\<open>bufcount_update_ref\<close> in three parts: the addition under the lock, the wait loop
  (\<open>Blocked\<close> is a thread inside \<^verbatim>\<open>pthread_cond_wait\<close>, the mutex released), and the
  end of the call, where a count of zero destroys the governor.
\<close>

definition bufcount_update_ref_end :: "bufcount_context \<Rightarrow> (unit, bufcount_context) outcome" where
  "bufcount_update_ref_end b =
     (if refcount b = 0 then Done () (b\<lparr>destroyed := True\<rparr>) else Done () b)"

definition bufcount_update_ref_wait :: "bufcount_context \<Rightarrow> (unit, bufcount_context) outcome" where
  "bufcount_update_ref_wait b =
     (if refmax b \<le> refcount b then Blocked b else bufcount_update_ref_end b)"

definition bufcount_update_ref ::
  "bufcount_context option \<Rightarrow> int \<Rightarrow> (unit, bufcount_context option) outcome" where
  "bufcount_update_ref b_opt n =
     (case b_opt of
        None \<Rightarrow> Done () None
      | Some b \<Rightarrow>
          let b1 = b\<lparr>refcount := refcount b + n\<rparr> in
          (case (if 0 < n then bufcount_update_ref_wait b1 else bufcount_update_ref_end b1) of
             Done u b2 \<Rightarrow> Done () (Some b2)
           | Blocked b2 \<Rightarrow> Blocked (Some b2)
           | Fault \<Rightarrow> Fault))"

text \<open>
  The governor under any number of threads. Every operation below is one critical
  section of its mutex: \<open>Op_update_max\<close> and \<open>Op_update_ref\<close> are the calls (a positive
  \<open>Op_update_ref\<close> that has to wait joins \<open>waiting\<close>), \<open>Op_wake\<close> is a waiting thread
  taking the mutex again and testing its loop condition. No operation is enabled on a
  destroyed governor.
\<close>

record gov_state =
  gov :: bufcount_context
  waiting :: nat

datatype gov_op = Op_update_max int | Op_update_ref int | Op_wake

definition gov_apply :: "gov_state \<Rightarrow> gov_op \<Rightarrow> gov_state option" where
  "gov_apply s op =
     (if destroyed (gov s) then None
      else
        (case op of
           Op_update_max n \<Rightarrow> Some (s\<lparr>gov := bufcount_update_max (gov s) n\<rparr>)
         | Op_update_ref n \<Rightarrow>
             (case bufcount_update_ref (Some (gov s)) n of
                Done u (Some b) \<Rightarrow> Some (s\<lparr>gov := b\<rparr>)
              | Blocked (Some b) \<Rightarrow> Some (s\<lparr>gov := b, waiting := waiting s + 1\<rparr>)
              | _ \<Rightarrow> None)
         | Op_wake \<Rightarrow>
             (if waiting s = 0 then None
              else
                (case bufcount_update_ref_wait (gov s) of
                   Done u b \<Rightarrow> Some (s\<lparr>gov := b, waiting := waiting s - 1\<rparr>)
                 | Blocked b \<Rightarrow> Some (s\<lparr>gov := b\<rparr>)
                 | Fault \<Rightarrow> None))))"

fun gov_run :: "gov_state \<Rightarrow> gov_op list \<Rightarrow> gov_state option" where
  "gov_run s [] = Some s"
| "gov_run s (op # ops) =
     (case gov_apply s op of None \<Rightarrow> None | Some s' \<Rightarrow> gov_run s' ops)"

definition gov_init :: gov_state where
  "gov_init = \<lparr>gov = bufcount_create, waiting = 0\<rparr>"

text \<open>The invariant the specification states for the governor.\<close>

definition gov_invariant :: "bufcount_context \<Rightarrow> bool" where
  "gov_invariant b = (0 \<le> refcount b \<and> refcount b \<le> refmax b)"

text \<open>
  Whether an operation is a positive \<^verbatim>\<open>bufcount_update_ref\<close> coming back to its caller:
  at once, or from its wait.
\<close>

definition returns_positive_ref :: "gov_state \<Rightarrow> gov_op \<Rightarrow> gov_state \<Rightarrow> bool" where
  "returns_positive_ref s op s' =
     (case op of
        Op_update_max n \<Rightarrow> False
      | Op_update_ref n \<Rightarrow> 0 < n \<and> waiting s' = waiting s
      | Op_wake \<Rightarrow> waiting s' < waiting s)"

section \<open>The hardware decoder: reorder buffer and packet submission\<close>

record async_frame =
  af_pts :: int64
  cv_buffer :: nat

text \<open>
  The calls and stores of the hardware decoder that a claim can be about, in the order
  the code makes them: the decoder's own mutex and condition variable, the store into
  \<^verbatim>\<open>nb_queued\<close>, the session calls, the hand-over of a frame to
  \<^verbatim>\<open>decoding_queue_frame\<close>, the release of a pixel buffer and the governor calls.
\<close>

datatype vt_event =
    Vt_lock
  | Vt_unlock
  | Vt_cond_signal
  | Vt_store_nb_queued int
  | Vt_decode_frame AVPacket
  | Vt_finish_delayed_frames
  | Vt_decoding_queue_frame async_frame
  | Vt_pixel_buffer_release nat
  | Vt_update_max int
  | Vt_update_ref int

text \<open>
  \<^verbatim>\<open>struct vtdec_context\<close>: the reorder list is \<open>queue\<close> (the linked list, head first).
  \<open>events\<close> is not a field of the struct: it is the log of the calls above.
\<close>

record vtdec_context =
  queue :: "async_frame list"
  nb_frames :: int
  nb_queued :: int
  bufcount :: bufcount_context
  events :: "vt_event list"

definition update_nb_queue :: "vtdec_context \<Rightarrow> int \<Rightarrow> vtdec_context" where
  "update_nb_queue vt diff =
     vt\<lparr>nb_queued := nb_queued vt + diff,
        events := events vt @ [Vt_lock, Vt_store_nb_queued (nb_queued vt + diff),
                               Vt_cond_signal, Vt_unlock]\<rparr>"









text \<open>
  What the platform answers to \<^verbatim>\<open>vtdec_push_packet\<close>: whether
  \<^verbatim>\<open>sample_buffer_create\<close> gave a sample buffer, and the status of
  \<^verbatim>\<open>VTDecompressionSessionDecodeFrame\<close>.
\<close>

record vt_env =
  sample_buf_ok :: "AVPacket \<Rightarrow> bool"
  decode_status :: "AVPacket \<Rightarrow> int"

definition vtdec_push_packet ::
  "vt_env \<Rightarrow> vtdec_context \<Rightarrow> AVPacket \<Rightarrow> (int, vtdec_context) outcome" where
  "vtdec_push_packet env vt pkt =
     (if 3 \<le> nb_queued vt then Blocked (vt\<lparr>events := events vt @ [Vt_lock]\<rparr>)
      else
        let vt0 = vt\<lparr>events := events vt @ [Vt_lock, Vt_unlock]\<rparr> in
        if pkt_size pkt = 0
        then Done AVERROR_EOF (vt0\<lparr>events := events vt0 @ [Vt_finish_delayed_frames]\<rparr>)
        else if \<not> sample_buf_ok env pkt then Done AVERROR_EXTERNAL vt0
        else
          let vt1 = update_nb_queue vt0 1;
              vt2 = vt1\<lparr>events := events vt1 @ [Vt_decode_frame pkt]\<rparr>
          in
            if decode_status env pkt \<noteq> 0
            then Done AVERROR_EXTERNAL
                   (vt2\<lparr>nb_queued := 0,
                        events := events vt2 @ [Vt_lock, Vt_store_nb_queued 0,
                                                Vt_cond_signal, Vt_unlock]\<rparr>)
            else Done (pkt_size pkt) vt2)"

text \<open>
  \<^verbatim>\<open>decoder_push_packet\<close> for the hardware decoder: the table \<^verbatim>\<open>decoder_vt\<close> names
  \<^verbatim>\<open>vtdec_push_packet\<close>, which leaves the decoder worker's own state alone.
\<close>

definition decoder_vt_push_packet ::
  "vt_env \<Rightarrow> vtdec_context \<Rightarrow> async_decoder \<Rightarrow> AVPacket \<Rightarrow>
   (int, vtdec_context \<times> async_decoder) outcome" where
  "decoder_vt_push_packet env vt d pkt =
     (case vtdec_push_packet env vt pkt of
        Done ret vt' \<Rightarrow> Done ret (vt', d)
      | Blocked vt' \<Rightarrow> Blocked (vt', d)
      | Fault \<Rightarrow> Fault)"

section \<open>Notions used to state the properties\<close>

text \<open>The cached frame as a list (empty or one frame), and a frame's canonical timestamp.\<close>

definition tmp_frames :: "async_decoder \<Rightarrow> AVFrame list" where
  "tmp_frames d = (case tmp_frame d of None \<Rightarrow> [] | Some t \<Rightarrow> [t])"

definition canonical_ts :: "rescale \<Rightarrow> async_decoder \<Rightarrow> AVFrame \<Rightarrow> int64" where
  "canonical_ts rs d f = rs (get_best_effort_ts f) (st_timebase d)"

text \<open>
  Concrete values: a stream whose time base is already microseconds (the rescaling is
  the identity), a frame with a given timestamp, and a decoder worker with a seek armed
  at \<open>target\<close>, an empty frames queue of three slots and no cached frame.
\<close>

definition rescale_identity :: rescale where
  "rescale_identity a tb = a"

definition frame_at :: "int64 \<Rightarrow> AVFrame" where
  "frame_at t = \<lparr>pts = t, best_effort_timestamp = t, data_id = unat t\<rparr>"

definition example_decoder :: "int64 \<Rightarrow> async_decoder" where
  "example_decoder target =
     \<lparr>dec_started = 1,
      pkt_queue = av_thread_message_queue_alloc 5,
      frames_queue = av_thread_message_queue_alloc 3,
      max_packets_queue = 5,
      max_frames_queue = 3,
      st_timebase = \<lparr>num = 1, den = 1000000\<rparr>,
      tmp_frame = None,
      seek_request = target,
      freed_frames = []\<rparr>"

text \<open>The frames in the frames queue when a call has returned or waits.\<close>

definition emitted_frames :: "(int, async_decoder) outcome \<Rightarrow> AVFrame list" where
  "emitted_frames out = (case state_of out of None \<Rightarrow> [] | Some d \<Rightarrow> fifo (frames_queue d))"

text \<open>The decoder worker above with the frame of timestamp \<open>t\<close> cached.\<close>

definition example_cached :: "int64 \<Rightarrow> int64 \<Rightarrow> async_decoder" where
  "example_cached target t = (example_decoder target)\<lparr>tmp_frame := Some (frame_at t)\<rparr>"

section \<open>Notions for the sink queue\<close>

text \<open>
  The sink queue after a pop: the filter worker sends frames and may latch the receive
  side, the client pops again. A run applies such operations in any order; one that
  would wait is not enabled.
\<close>

datatype sink_op = Producer_send AVFrame | Producer_set_err_recv int | Client_pop

definition sink_apply :: "async_context \<Rightarrow> sink_op \<Rightarrow> async_context option" where
  "sink_apply actx op =
     (case op of
        Producer_send frame \<Rightarrow>
          (case sink_queue actx of
             None \<Rightarrow> None
           | Some q \<Rightarrow>
               (case av_thread_message_queue_send q frame of
                  Done ret q' \<Rightarrow> Some (actx\<lparr>sink_queue := Some q'\<rparr>)
                | Blocked q' \<Rightarrow> None
                | Fault \<Rightarrow> None))
      | Producer_set_err_recv e \<Rightarrow>
          (case sink_queue actx of
             None \<Rightarrow> None
           | Some q \<Rightarrow> Some (actx\<lparr>sink_queue := Some (av_thread_message_queue_set_err_recv q e)\<rparr>))
      | Client_pop \<Rightarrow>
          (case async_pop_frame actx of
             Done frame actx' \<Rightarrow> Some actx'
           | Blocked actx' \<Rightarrow> None
           | Fault \<Rightarrow> None))"

fun sink_run :: "async_context \<Rightarrow> sink_op list \<Rightarrow> async_context option" where
  "sink_run actx [] = Some actx"
| "sink_run actx (op # ops) =
     (case sink_apply actx op of None \<Rightarrow> None | Some actx' \<Rightarrow> sink_run actx' ops)"

text \<open>The send side of the sink queue is latched: every send fails and adds nothing.\<close>

definition send_stopped :: "async_context \<Rightarrow> bool" where
  "send_stopped actx =
     (case sink_queue actx of None \<Rightarrow> False | Some q \<Rightarrow> err_send q < 0)"

text \<open>A reader that is not started, and a context around it with no sink queue yet.\<close>

definition example_reader :: async_reader where
  "example_reader =
     \<lparr>started = 0, request_seek = - 1, decoder = example_decoder AV_NOPTS_VALUE,
      tid_running = False\<rparr>"

definition example_context :: async_context where
  "example_context = \<lparr>reader = example_reader, sink_queue = None\<rparr>"

text \<open>A started context whose sink queue is empty, with the receive side latched at \<open>e\<close>.\<close>

definition example_drained :: "int \<Rightarrow> async_context" where
  "example_drained e =
     \<lparr>reader = example_reader\<lparr>started := 1, tid_running := True\<rparr>,
      sink_queue = Some (av_thread_message_queue_set_err_recv (av_thread_message_queue_alloc 3) e)\<rparr>"

section \<open>Notions for the controller\<close>

text \<open>
  Two starts in a row, and two stops in a row. The second start sees what the world
  answers then (\<open>env2\<close>); after a start that freed the context there is no second one.
\<close>

definition start_twice ::
  "start_env \<Rightarrow> start_env \<Rightarrow> async_context \<Rightarrow> int64 \<Rightarrow> int64 \<Rightarrow> int \<times> async_context option" where
  "start_twice env1 env2 actx skip1 skip2 =
     (case async_start env1 actx skip1 of
        (ret, None) \<Rightarrow> (ret, None)
      | (ret, Some actx1) \<Rightarrow> async_start env2 actx1 skip2)"


text \<open>A world where everything succeeds, and one where the thread cannot be created.\<close>

definition env_ok :: start_env where
  "env_ok = \<lparr>alloc_ret = 0, seek_lock_ret = 0, seek_unlock_ret = 0, create_ret = 0\<rparr>"

definition env_no_thread :: start_env where
  "env_no_thread = \<lparr>alloc_ret = 0, seek_lock_ret = 0, seek_unlock_ret = 0, create_ret = EAGAIN\<rparr>"



section \<open>Notions for the packet queue and the reader\<close>

text \<open>
  The packet queue holds a seek message at its head or nowhere, and holds nothing while
  the reader is between the flush and the send of \<^verbatim>\<open>push_seek_message\<close>.
\<close>

definition pktq_inv :: "pktq_state \<Rightarrow> bool" where
  "pktq_inv s =
     ((seek_pending s \<noteq> None \<longrightarrow> fifo (pq s) = [])
      \<and> (\<forall>m \<in> set (tl (fifo (pq s))). \<not> is_seek m))"



text \<open>A packet, a world in which every call of the reader succeeds, and a packet queue of five slots.\<close>

definition example_packet :: AVPacket where
  "example_packet = \<lparr>pkt_pts = 0, pkt_size = 100, pkt_data = 1\<rparr>"


definition example_pktq :: "message list \<Rightarrow> message AVThreadMessageQueue" where
  "example_pktq ms = \<lparr>fifo = ms, nelem = 5, err_send = 0, err_recv = 0\<rparr>"

section \<open>Notions for the hardware decoder\<close>

text \<open>
  A hardware decoder holding the reorder list \<open>q\<close>, with one packet in flight and the
  governor as created, its maximum raised by one per frame held.
\<close>

definition example_vt :: "async_frame list \<Rightarrow> vtdec_context" where
  "example_vt q =
     \<lparr>queue = q, nb_frames = int (length q), nb_queued = 1,
      bufcount = bufcount_update_max bufcount_create (int (length q)), events = []\<rparr>"

text \<open>A platform that builds every sample buffer and refuses every frame with status \<open>st\<close>.\<close>

definition env_decode_status :: "int \<Rightarrow> vt_env" where
  "env_decode_status st = \<lparr>sample_buf_ok = (\<lambda>pkt. True), decode_status = (\<lambda>pkt. st)\<rparr>"













text \<open>A governor with the given counts and number of waiting calls.\<close>

definition example_gov :: "int \<Rightarrow> int \<Rightarrow> nat \<Rightarrow> gov_state" where
  "example_gov rc rm w = \<lparr>gov = \<lparr>refcount = rc, refmax = rm, destroyed = False\<rparr>, waiting = w\<rparr>"

text \<open>
  A decoder worker about to receive a seek message, with a stale frame in its frames
  queue; a decoder whose flush and packet submission do nothing; and the worker after
  its turn on the seek message.
\<close>

definition example_seek_turn :: "int64 \<Rightarrow> async_decoder" where
  "example_seek_turn target =
     (example_decoder AV_NOPTS_VALUE)
       \<lparr>pkt_queue := example_pktq [MSG_SEEK target],
        frames_queue := \<lparr>fifo = [frame_at 1000000], nelem = 3, err_send = 0, err_recv = 0\<rparr>\<rparr>"

definition flush_nothing :: "unit \<Rightarrow> async_decoder \<Rightarrow> (unit, unit \<times> async_decoder) outcome" where
  "flush_nothing c d = Done () (c, d)"

definition push_nothing ::
  "unit \<Rightarrow> async_decoder \<Rightarrow> AVPacket \<Rightarrow> (int, unit \<times> async_decoder) outcome" where
  "push_nothing c d pkt = Done 0 (c, d)"

definition example_after_seek :: "int64 \<Rightarrow> async_decoder" where
  "example_after_seek target =
     (example_decoder target)\<lparr>pkt_queue := example_pktq [], freed_frames := [frame_at 1000000]\<rparr>"

section \<open>Frames below the seek target\<close>

lemma skip_step:
  assumes "seek_request d \<noteq> AV_NOPTS_VALUE"
    and "canonical_ts rs d frame <s seek_request d"
  shows "async_queue_frame rs d (Some frame) =
           Done 0 (d\<lparr>freed_frames := freed_frames d @ tmp_frames d, tmp_frame := Some frame\<rparr>)"
  using assms by (simp add: async_queue_frame_def Let_def tmp_frames_def canonical_ts_def)

lemma deliver_skipped:
  assumes "seek_request d \<noteq> AV_NOPTS_VALUE"
    and "\<forall>f \<in> set fs. canonical_ts rs d f <s seek_request d"
  shows "deliver_frames rs d (map Some fs) =
           Done 0 (d\<lparr>freed_frames := freed_frames d @ butlast (tmp_frames d @ fs),
                      tmp_frame := (if fs = [] then tmp_frame d else Some (last fs))\<rparr>)"
  using assms
proof (induction fs arbitrary: d)
  case Nil
  then show ?case by (simp add: tmp_frames_def split: option.splits)
next
  case (Cons f fs)
  let ?d1 = "d\<lparr>freed_frames := freed_frames d @ tmp_frames d, tmp_frame := Some f\<rparr>"
  have step: "async_queue_frame rs d (Some f) = Done 0 ?d1"
    using Cons.prems by (simp add: skip_step)
  have ih: "deliver_frames rs ?d1 (map Some fs) =
           Done 0 (?d1\<lparr>freed_frames := freed_frames ?d1 @ butlast (tmp_frames ?d1 @ fs),
                      tmp_frame := (if fs = [] then tmp_frame ?d1 else Some (last fs))\<rparr>)"
    by (rule Cons.IH) (use Cons.prems in \<open>simp_all add: canonical_ts_def\<close>)
  have "deliver_frames rs d (map Some (f # fs)) = deliver_frames rs ?d1 (map Some fs)"
    by (simp add: step)
  also note ih
  also have "?d1\<lparr>freed_frames := freed_frames ?d1 @ butlast (tmp_frames ?d1 @ fs),
                      tmp_frame := (if fs = [] then tmp_frame ?d1 else Some (last fs))\<rparr> =
        d\<lparr>freed_frames := freed_frames d @ butlast (tmp_frames d @ f # fs),
                      tmp_frame := (if f # fs = [] then tmp_frame d else Some (last (f # fs)))\<rparr>"
    by (simp add: tmp_frames_def butlast_append split: option.splits)
  finally show ?case .
qed

text \<open>
  C2. A non-null frame that arrives while a seek is armed, with a canonical timestamp
  strictly below the seek target: the frame cached before (if any) is freed, the new
  frame becomes the cached frame, the frames queue is untouched (nothing is emitted),
  the seek stays armed and the call returns 0. However many such frames follow, the
  cache holds the last one only and every earlier one has been freed.
\<close>

theorem async_queue_frame_skips_before_target:
  assumes "seek_request d \<noteq> AV_NOPTS_VALUE"
    and "canonical_ts rs d frame <s seek_request d"
    and "\<forall>f \<in> set fs. canonical_ts rs d f <s seek_request d"
  shows "(\<exists>d'. async_queue_frame rs d (Some frame) = Done 0 d'
            \<and> tmp_frame d' = Some frame
            \<and> freed_frames d' = freed_frames d @ tmp_frames d
            \<and> frames_queue d' = frames_queue d
            \<and> seek_request d' = seek_request d
            \<and> d' = d\<lparr>freed_frames := freed_frames d @ tmp_frames d, tmp_frame := Some frame\<rparr>)
       \<and> deliver_frames rs d (map Some (frame # fs)) =
           Done 0 (d\<lparr>freed_frames := freed_frames d @ butlast (tmp_frames d @ frame # fs),
                      tmp_frame := Some (last (frame # fs))\<rparr>)"
proof -
  have one: "async_queue_frame rs d (Some frame) =
           Done 0 (d\<lparr>freed_frames := freed_frames d @ tmp_frames d, tmp_frame := Some frame\<rparr>)"
    using assms(1,2) by (rule skip_step)
  have "\<forall>f \<in> set (frame # fs). canonical_ts rs d f <s seek_request d"
    using assms(2,3) by simp
  from deliver_skipped [OF assms(1) this]
  have run: "deliver_frames rs d (map Some (frame # fs)) =
           Done 0 (d\<lparr>freed_frames := freed_frames d @ butlast (tmp_frames d @ frame # fs),
                      tmp_frame := Some (last (frame # fs))\<rparr>)"
    by simp
  show ?thesis
    using one run by simp
qed

theorem async_queue_frame_skips_before_target_witness:
  "seek_request (example_decoder 5000000) \<noteq> AV_NOPTS_VALUE
   \<and> canonical_ts rescale_identity (example_decoder 5000000) (frame_at 3000000) <s 5000000
   \<and> canonical_ts rescale_identity (example_decoder 5000000) (frame_at 4000000) <s 5000000
   \<and> async_queue_frame rescale_identity (example_decoder 5000000) (Some (frame_at 3000000)) =
       Done 0 ((example_decoder 5000000)\<lparr>tmp_frame := Some (frame_at 3000000)\<rparr>)
   \<and> deliver_frames rescale_identity (example_decoder 5000000)
         [Some (frame_at 3000000), Some (frame_at 4000000)] =
       Done 0 ((example_decoder 5000000)\<lparr>freed_frames := [frame_at 3000000],
                                           tmp_frame := Some (frame_at 4000000)\<rparr>)"
proof -
  have h1: "seek_request (example_decoder 5000000) \<noteq> AV_NOPTS_VALUE"
    by (simp add: example_decoder_def AV_NOPTS_VALUE_def)
  have h2: "canonical_ts rescale_identity (example_decoder 5000000) (frame_at 3000000)
              <s seek_request (example_decoder 5000000)"
    by (simp add: canonical_ts_def rescale_identity_def get_best_effort_ts_def frame_at_def
        example_decoder_def AV_NOPTS_VALUE_def)
  have h3: "\<forall>f \<in> set [frame_at 4000000].
              canonical_ts rescale_identity (example_decoder 5000000) f
                <s seek_request (example_decoder 5000000)"
    by (simp add: canonical_ts_def rescale_identity_def get_best_effort_ts_def frame_at_def
        example_decoder_def AV_NOPTS_VALUE_def)
  show ?thesis
    using h1 h2 h3 async_queue_frame_skips_before_target [OF h1 h2 h3]
    by (simp add: async_queue_frame_def Let_def canonical_ts_def rescale_identity_def
        get_best_effort_ts_def frame_at_def example_decoder_def AV_NOPTS_VALUE_def tmp_frames_def)
qed

section \<open>The first frame after a seek\<close>

lemma deliver_frames_append:
  "deliver_frames rs d (xs @ ys) =
     (case deliver_frames rs d xs of
        Done ret d' \<Rightarrow> if ret < 0 then Done ret d' else deliver_frames rs d' ys
      | Blocked d' \<Rightarrow> Blocked d'
      | Fault \<Rightarrow> Fault)"
  by (induction xs arbitrary: d) (auto split: outcome.splits)

lemma queue_frame_room:
  assumes "err_send (frames_queue d) = 0"
    and "length (fifo (frames_queue d)) < nelem (frames_queue d)"
  shows "queue_frame d frame =
           Done 0 (d\<lparr>frames_queue := (frames_queue d)\<lparr>fifo := fifo (frames_queue d) @ [frame]\<rparr>\<rparr>)"
  using assms by (simp add: queue_frame_def av_thread_message_queue_send_def)

lemma queue_frame_no_latch:
  assumes "err_send (frames_queue d) = 0"
  shows "queue_frame d frame =
           (if length (fifo (frames_queue d)) < nelem (frames_queue d)
            then Done 0 (d\<lparr>frames_queue := (frames_queue d)\<lparr>fifo := fifo (frames_queue d) @ [frame]\<rparr>\<rparr>)
            else Blocked d)"
  using assms by (simp add: queue_frame_def av_thread_message_queue_send_def)

lemma kept_without_cache:
  assumes "tmp_frame d = None"
    and "\<not> canonical_ts rs d frame <s seek_request d"
  shows "async_queue_frame rs d (Some frame) =
           queue_frame (d\<lparr>seek_request := AV_NOPTS_VALUE\<rparr>)
             (frame\<lparr>pts := (if seek_request d \<noteq> AV_NOPTS_VALUE \<and> 0 <s seek_request d
                                  \<and> seek_request d <s canonical_ts rs d frame
                               then seek_request d else canonical_ts rs d frame)\<rparr>)"
  using assms by (simp add: async_queue_frame_def Let_def canonical_ts_def)

lemma kept_with_cache:
  assumes "tmp_frame d = Some c"
    and "\<not> canonical_ts rs d frame <s seek_request d"
  shows "async_queue_frame rs d (Some frame) =
           (case queue_frame (d\<lparr>tmp_frame := None\<rparr>) (c\<lparr>pts := canonical_ts rs d c\<rparr>) of
              Done ret d' \<Rightarrow>
                if ret < 0 then Done ret d'
                else queue_frame (d'\<lparr>seek_request := AV_NOPTS_VALUE\<rparr>)
                       (frame\<lparr>pts := canonical_ts rs d frame\<rparr>)
            | Blocked d' \<Rightarrow> Blocked d'
            | Fault \<Rightarrow> Fault)"
  using assms
  by (simp add: async_queue_frame_def queue_cached_frame_def Let_def canonical_ts_def
      split: outcome.splits)

lemma first_frame_when_armed:
  assumes armed: "seek_request d \<noteq> AV_NOPTS_VALUE"
    and below: "\<forall>f \<in> set skipped. canonical_ts rs d f <s seek_request d"
    and reach: "\<not> canonical_ts rs d frame <s seek_request d"
    and empty: "fifo (frames_queue d) = []"
    and latch: "err_send (frames_queue d) = 0"
    and room: "0 < nelem (frames_queue d)"
  shows "\<exists>d'. state_of (deliver_frames rs d (map Some (skipped @ [frame]))) = Some d'
           \<and> seek_request d' = AV_NOPTS_VALUE
           \<and> fifo (frames_queue d') \<noteq> []
           \<and> hd (fifo (frames_queue d')) =
               (if tmp_frames d @ skipped = []
                then frame\<lparr>pts := (if 0 <s seek_request d
                                        \<and> seek_request d <s canonical_ts rs d frame
                                     then seek_request d else canonical_ts rs d frame)\<rparr>
                else (last (tmp_frames d @ skipped))
                       \<lparr>pts := canonical_ts rs d (last (tmp_frames d @ skipped))\<rparr>)
           \<and> (skipped \<noteq> [] \<longrightarrow> pts (hd (fifo (frames_queue d'))) <s seek_request d)
           \<and> (tmp_frames d @ skipped = [] \<longrightarrow>
                 seek_request d \<le>s pts (hd (fifo (frames_queue d'))))"
proof -
  define d1 where "d1 = d\<lparr>freed_frames := freed_frames d @ butlast (tmp_frames d @ skipped),
                      tmp_frame := (if skipped = [] then tmp_frame d else Some (last skipped))\<rparr>"
  have skip: "deliver_frames rs d (map Some skipped) = Done 0 d1"
    unfolding d1_def by (rule deliver_skipped [OF armed below])
  have run: "deliver_frames rs d (map Some (skipped @ [frame])) =
        (case async_queue_frame rs d1 (Some frame) of
           Done ret d' \<Rightarrow> if ret < 0 then Done ret d' else Done 0 d'
         | Blocked d' \<Rightarrow> Blocked d'
         | Fault \<Rightarrow> Fault)"
    by (simp add: deliver_frames_append skip split: outcome.splits)
  have q1: "frames_queue d1 = frames_queue d" and s1: "seek_request d1 = seek_request d"
    and c1: "canonical_ts rs d1 = canonical_ts rs d"
    by (simp_all add: d1_def canonical_ts_def fun_eq_iff)
  have reach1: "\<not> canonical_ts rs d1 frame <s seek_request d1"
    using reach by (simp add: c1 s1)
  show ?thesis
  proof (cases "tmp_frames d @ skipped = []")
    case True
    then have none: "tmp_frame d1 = None" and sk: "skipped = []"
      by (simp_all add: d1_def tmp_frames_def split: option.splits)
    let ?f2 = "frame\<lparr>pts := (if 0 <s seek_request d \<and> seek_request d <s canonical_ts rs d frame
                               then seek_request d else canonical_ts rs d frame)\<rparr>"
    have "async_queue_frame rs d1 (Some frame) =
            queue_frame (d1\<lparr>seek_request := AV_NOPTS_VALUE\<rparr>) ?f2"
      using kept_without_cache [OF none reach1] armed by (simp add: c1 s1)
    also have "\<dots> = Done 0 (d1\<lparr>seek_request := AV_NOPTS_VALUE,
                     frames_queue := (frames_queue d)\<lparr>fifo := [?f2]\<rparr>\<rparr>)"
      using empty latch room by (simp add: queue_frame_room q1)
    finally have aq: "async_queue_frame rs d1 (Some frame) =
        Done 0 (d1\<lparr>seek_request := AV_NOPTS_VALUE,
                     frames_queue := (frames_queue d)\<lparr>fifo := [?f2]\<rparr>\<rparr>)" .
    have ord: "seek_request d \<le>s pts ?f2"
      using reach by (auto simp: word_sle_eq word_sless_alt)
    have res: "deliver_frames rs d (map Some (skipped @ [frame])) =
        Done 0 (d1\<lparr>seek_request := AV_NOPTS_VALUE,
                     frames_queue := (frames_queue d)\<lparr>fifo := [?f2]\<rparr>\<rparr>)"
      unfolding run aq by simp
    show ?thesis
      unfolding res using True ord by simp
  next
    case False
    define c where "c = last (tmp_frames d @ skipped)"
    have some: "tmp_frame d1 = Some c"
      using False by (auto simp: d1_def c_def tmp_frames_def split: option.splits)
    let ?c' = "c\<lparr>pts := canonical_ts rs d c\<rparr>"
    let ?d2 = "d1\<lparr>tmp_frame := None, frames_queue := (frames_queue d)\<lparr>fifo := [?c']\<rparr>\<rparr>"
    have first: "queue_frame (d1\<lparr>tmp_frame := None\<rparr>) ?c' = Done 0 ?d2"
      using empty latch room by (simp add: queue_frame_room q1)
    have second: "queue_frame (?d2\<lparr>seek_request := AV_NOPTS_VALUE\<rparr>)
                    (frame\<lparr>pts := canonical_ts rs d frame\<rparr>) =
          (if 1 < nelem (frames_queue d)
           then Done 0 (?d2\<lparr>seek_request := AV_NOPTS_VALUE,
                  frames_queue := (frames_queue d)\<lparr>fifo := [?c', frame\<lparr>pts := canonical_ts rs d frame\<rparr>]\<rparr>\<rparr>)
           else Blocked (?d2\<lparr>seek_request := AV_NOPTS_VALUE\<rparr>))"
      using latch by (simp add: queue_frame_no_latch)
    have aq: "async_queue_frame rs d1 (Some frame) =
          (if 1 < nelem (frames_queue d)
           then Done 0 (?d2\<lparr>seek_request := AV_NOPTS_VALUE,
                  frames_queue := (frames_queue d)\<lparr>fifo := [?c', frame\<lparr>pts := canonical_ts rs d frame\<rparr>]\<rparr>\<rparr>)
           else Blocked (?d2\<lparr>seek_request := AV_NOPTS_VALUE\<rparr>))"
      using kept_with_cache [OF some reach1] by (simp add: c1 first second)
    have low: "skipped \<noteq> [] \<Longrightarrow> canonical_ts rs d c <s seek_request d"
      using below by (simp add: c_def)
    have res: "deliver_frames rs d (map Some (skipped @ [frame])) =
          (if 1 < nelem (frames_queue d)
           then Done 0 (?d2\<lparr>seek_request := AV_NOPTS_VALUE,
                  frames_queue := (frames_queue d)\<lparr>fifo := [?c', frame\<lparr>pts := canonical_ts rs d frame\<rparr>]\<rparr>\<rparr>)
           else Blocked (?d2\<lparr>seek_request := AV_NOPTS_VALUE\<rparr>))"
      unfolding run aq by simp
    show ?thesis
      unfolding res c_def [symmetric] using False low by auto
  qed
qed

lemma decoder_thread_iter_seek:
  assumes recv: "av_thread_message_queue_recv (pkt_queue d0) = Done (0, Some (MSG_SEEK target)) q0"
    and turn: "decoder_thread_iter decoder_push_packet decoder_flush c d0 = Done ctl (c', d)"
  shows "ctl = Continue \<and> seek_request d = target \<and> fifo (frames_queue d) = []
         \<and> (\<exists>u d1. decoder_flush c (d0\<lparr>pkt_queue := q0\<rparr>) = Done u (c', d1)
               \<and> d = d1\<lparr>freed_frames := freed_frames d1 @ fifo (frames_queue d1),
                        frames_queue := av_thread_message_flush (frames_queue d1),
                        seek_request := target\<rparr>)"
  using turn
  by (auto simp: decoder_thread_iter_def recv av_thread_message_flush_def
      split: outcome.splits prod.splits)

text \<open>
  C4, as the code has it. The decoder worker takes a seek message with a target that is
  not negative: its turn flushes the decoder and the frames queue and arms the seek, and
  leaves the cached frame as the decoder's flush left it. The frames queue has room for
  one frame at least and no send latch. The decoder then delivers frames below the target
  (\<open>skipped\<close>, none or more) and a first frame at or past it. Whether the last call
  returns or waits for room, the seek is disarmed and the first frame in the queue is:
  when frames below the target were delivered, the last of them, under its own canonical
  timestamp, which is below the target; when none was delivered but a frame is still
  cached from before the seek, that frame, under its own canonical timestamp, whatever
  it is; when no frame is cached at all, the first frame at or past the target, with its
  timestamp clamped to the target if the target is positive and the timestamp exceeds
  it, so not below the target.
\<close>

theorem first_frame_after_seek:
  assumes recv: "av_thread_message_queue_recv (pkt_queue d0) = Done (0, Some (MSG_SEEK target)) q0"
    and turn: "decoder_thread_iter decoder_push_packet decoder_flush c d0 = Done ctl (c', d)"
    and target: "0 \<le>s target"
    and below: "\<forall>f \<in> set skipped. canonical_ts rs d f <s target"
    and reach: "\<not> canonical_ts rs d frame <s target"
    and latch: "err_send (frames_queue d) = 0"
    and room: "0 < nelem (frames_queue d)"
  shows "ctl = Continue \<and> seek_request d = target \<and> fifo (frames_queue d) = []
       \<and> (\<exists>u d1. decoder_flush c (d0\<lparr>pkt_queue := q0\<rparr>) = Done u (c', d1)
              \<and> tmp_frame d = tmp_frame d1)
       \<and> (\<exists>d'. state_of (deliver_frames rs d (map Some (skipped @ [frame]))) = Some d'
           \<and> seek_request d' = AV_NOPTS_VALUE
           \<and> fifo (frames_queue d') \<noteq> []
           \<and> hd (fifo (frames_queue d')) =
               (if tmp_frames d @ skipped = []
                then frame\<lparr>pts := (if 0 <s target \<and> target <s canonical_ts rs d frame
                                     then target else canonical_ts rs d frame)\<rparr>
                else (last (tmp_frames d @ skipped))
                       \<lparr>pts := canonical_ts rs d (last (tmp_frames d @ skipped))\<rparr>)
           \<and> (skipped \<noteq> [] \<longrightarrow>
                 hd (fifo (frames_queue d')) =
                   (last skipped)\<lparr>pts := canonical_ts rs d (last skipped)\<rparr>
                 \<and> pts (hd (fifo (frames_queue d'))) <s target)
           \<and> (skipped = [] \<longrightarrow>
                 (\<forall>c. tmp_frame d = Some c \<longrightarrow>
                    hd (fifo (frames_queue d')) = c\<lparr>pts := canonical_ts rs d c\<rparr>))
           \<and> (skipped = [] \<and> tmp_frame d = None \<longrightarrow>
                 hd (fifo (frames_queue d')) =
                   frame\<lparr>pts := (if 0 <s target \<and> target <s canonical_ts rs d frame
                                    then target else canonical_ts rs d frame)\<rparr>
                 \<and> target \<le>s pts (hd (fifo (frames_queue d')))))"
proof -
  have after: "ctl = Continue" "seek_request d = target" "fifo (frames_queue d) = []"
    using decoder_thread_iter_seek [OF recv turn] by simp_all
  have cache: "\<exists>u d1. decoder_flush c (d0\<lparr>pkt_queue := q0\<rparr>) = Done u (c', d1)
              \<and> tmp_frame d = tmp_frame d1"
  proof -
    from decoder_thread_iter_seek [OF recv turn]
    obtain u d1 where fl: "decoder_flush c (d0\<lparr>pkt_queue := q0\<rparr>) = Done u (c', d1)"
      and eq: "d = d1\<lparr>freed_frames := freed_frames d1 @ fifo (frames_queue d1),
                        frames_queue := av_thread_message_flush (frames_queue d1),
                        seek_request := target\<rparr>"
      by blast
    have "tmp_frame d = tmp_frame d1"
      by (subst eq) simp
    with fl show ?thesis by blast
  qed
  have armed: "seek_request d \<noteq> AV_NOPTS_VALUE"
    using target by (auto simp: after(2) AV_NOPTS_VALUE_def word_sle_eq)
  have below': "\<forall>f \<in> set skipped. canonical_ts rs d f <s seek_request d"
    and reach': "\<not> canonical_ts rs d frame <s seek_request d"
    using below reach by (simp_all add: after(2))
  let ?clamped = "frame\<lparr>pts := (if 0 <s target \<and> target <s canonical_ts rs d frame
                                    then target else canonical_ts rs d frame)\<rparr>"
  from first_frame_when_armed [OF armed below' reach' after(3) latch room]
  obtain d' where run: "state_of (deliver_frames rs d (map Some (skipped @ [frame]))) = Some d'"
    and off: "seek_request d' = AV_NOPTS_VALUE"
    and ne: "fifo (frames_queue d') \<noteq> []"
    and hd: "hd (fifo (frames_queue d')) =
               (if tmp_frames d @ skipped = [] then ?clamped
                else (last (tmp_frames d @ skipped))
                       \<lparr>pts := canonical_ts rs d (last (tmp_frames d @ skipped))\<rparr>)"
    and low: "skipped \<noteq> [] \<longrightarrow> pts (hd (fifo (frames_queue d'))) <s target"
    and high: "tmp_frames d @ skipped = [] \<longrightarrow> target \<le>s pts (hd (fifo (frames_queue d')))"
    unfolding after(2) by blast
  have c1: "skipped \<noteq> [] \<longrightarrow>
                 hd (fifo (frames_queue d')) =
                   (last skipped)\<lparr>pts := canonical_ts rs d (last skipped)\<rparr>
                 \<and> pts (hd (fifo (frames_queue d'))) <s target"
    using hd low by simp
  have c2: "skipped = [] \<longrightarrow>
                 (\<forall>c. tmp_frame d = Some c \<longrightarrow>
                    hd (fifo (frames_queue d')) = c\<lparr>pts := canonical_ts rs d c\<rparr>)"
    using hd by (simp add: tmp_frames_def)
  have c3: "skipped = [] \<and> tmp_frame d = None \<longrightarrow>
                 hd (fifo (frames_queue d')) = ?clamped
                 \<and> target \<le>s pts (hd (fifo (frames_queue d')))"
    using hd high by (simp add: tmp_frames_def)
  have first: "\<exists>d'. state_of (deliver_frames rs d (map Some (skipped @ [frame]))) = Some d'
           \<and> seek_request d' = AV_NOPTS_VALUE
           \<and> fifo (frames_queue d') \<noteq> []
           \<and> hd (fifo (frames_queue d')) =
               (if tmp_frames d @ skipped = [] then ?clamped
                else (last (tmp_frames d @ skipped))
                       \<lparr>pts := canonical_ts rs d (last (tmp_frames d @ skipped))\<rparr>)
           \<and> (skipped \<noteq> [] \<longrightarrow>
                 hd (fifo (frames_queue d')) =
                   (last skipped)\<lparr>pts := canonical_ts rs d (last skipped)\<rparr>
                 \<and> pts (hd (fifo (frames_queue d'))) <s target)
           \<and> (skipped = [] \<longrightarrow>
                 (\<forall>c. tmp_frame d = Some c \<longrightarrow>
                    hd (fifo (frames_queue d')) = c\<lparr>pts := canonical_ts rs d c\<rparr>))
           \<and> (skipped = [] \<and> tmp_frame d = None \<longrightarrow>
                 hd (fifo (frames_queue d')) = ?clamped
                 \<and> target \<le>s pts (hd (fifo (frames_queue d'))))"
    by (intro exI [of _ d'] conjI) (fact run off ne hd c1 c2 c3)+
  show ?thesis
    by (intro conjI) (fact after cache first)+
qed

theorem first_frame_after_seek_witness:
  "av_thread_message_queue_recv (pkt_queue (example_seek_turn 5000000)) =
     Done (0, Some (MSG_SEEK 5000000)) (example_pktq [])
   \<and> decoder_thread_iter push_nothing flush_nothing () (example_seek_turn 5000000) =
       Done Continue ((), example_after_seek 5000000)
   \<and> (0 :: int64) \<le>s 5000000
   \<and> canonical_ts rescale_identity (example_after_seek 5000000) (frame_at 3000000) <s 5000000
   \<and> \<not> canonical_ts rescale_identity (example_after_seek 5000000) (frame_at 6000000) <s 5000000
   \<and> err_send (frames_queue (example_after_seek 5000000)) = 0
   \<and> 0 < nelem (frames_queue (example_after_seek 5000000))
   \<and> emitted_frames (deliver_frames rescale_identity (example_after_seek 5000000)
         [Some (frame_at 3000000), Some (frame_at 6000000)]) =
       [frame_at 3000000, frame_at 6000000]"
proof -
  have h1: "av_thread_message_queue_recv (pkt_queue (example_seek_turn 5000000)) =
     Done (0, Some (MSG_SEEK 5000000)) (example_pktq [])"
    by (simp add: example_seek_turn_def example_pktq_def av_thread_message_queue_recv_def)
  have h2: "decoder_thread_iter push_nothing flush_nothing () (example_seek_turn 5000000) =
       Done Continue ((), example_after_seek 5000000)"
    by (simp add: decoder_thread_iter_def flush_nothing_def example_seek_turn_def
        example_after_seek_def example_decoder_def example_pktq_def
        av_thread_message_queue_recv_def av_thread_message_flush_def
        av_thread_message_queue_alloc_def)
  have h3: "(0 :: int64) \<le>s 5000000"
    by (simp add: word_sle_eq)
  have h4: "\<forall>f \<in> set [frame_at 3000000].
              canonical_ts rescale_identity (example_after_seek 5000000) f <s 5000000"
    by (simp add: canonical_ts_def rescale_identity_def get_best_effort_ts_def frame_at_def
        AV_NOPTS_VALUE_def)
  have h5: "\<not> canonical_ts rescale_identity (example_after_seek 5000000) (frame_at 6000000)
                <s 5000000"
    by (simp add: canonical_ts_def rescale_identity_def get_best_effort_ts_def frame_at_def
        AV_NOPTS_VALUE_def)
  have h6: "err_send (frames_queue (example_after_seek 5000000)) = 0"
    and h7: "0 < nelem (frames_queue (example_after_seek 5000000))"
    by (simp_all add: example_after_seek_def example_decoder_def
        av_thread_message_queue_alloc_def)
  have em: "emitted_frames (deliver_frames rescale_identity (example_after_seek 5000000)
         [Some (frame_at 3000000), Some (frame_at 6000000)]) =
       [frame_at 3000000, frame_at 6000000]"
    using first_frame_after_seek [OF h1 h2 h3 h4 h5 h6 h7]
    by (simp add: async_queue_frame_def queue_cached_frame_def queue_frame_def
        av_thread_message_queue_send_def av_thread_message_queue_alloc_def Let_def
        canonical_ts_def rescale_identity_def get_best_effort_ts_def frame_at_def
        example_after_seek_def example_decoder_def AV_NOPTS_VALUE_def tmp_frames_def
        emitted_frames_def)
  show ?thesis
    using h1 h2 h3 h4 h5 h6 h7 em by simp
qed

text \<open>
  A frame left in the cache from before the seek comes first under its own timestamp:
  with the frame of 9 s cached and a seek armed at 5 s, the frame of 6 s is emitted
  second, neither of them clamped.
\<close>

lemma stale_cached_frame_comes_first:
  "map pts (emitted_frames (deliver_frames rescale_identity (example_cached 5000000 9000000)
      [Some (frame_at 6000000)])) = [9000000, 6000000]"
  by (simp add: async_queue_frame_def queue_cached_frame_def queue_frame_def
      av_thread_message_queue_send_def av_thread_message_queue_alloc_def Let_def
      rescale_identity_def get_best_effort_ts_def frame_at_def example_cached_def
      example_decoder_def AV_NOPTS_VALUE_def emitted_frames_def word_sless_alt)

text \<open>
  C4 as stated fails: a seek to 10.2 s, then frames at 9 s, 10 s and 11 s. The first
  frame in the frames queue is the 10 s frame, below the target and not clamped to it.
\<close>

theorem first_frame_below_target_counterexample:
  "map pts (emitted_frames (deliver_frames rescale_identity (example_decoder 10200000)
      [Some (frame_at 9000000), Some (frame_at 10000000), Some (frame_at 11000000)])) =
     [10000000, 11000000]
   \<and> (10000000 :: int64) <s 10200000"
  by (simp add: async_queue_frame_def queue_cached_frame_def queue_frame_def
      av_thread_message_queue_send_def av_thread_message_queue_alloc_def Let_def
      rescale_identity_def get_best_effort_ts_def frame_at_def
      example_decoder_def AV_NOPTS_VALUE_def emitted_frames_def)

section \<open>The first frame past the seek target\<close>

text \<open>
  C1, as the code has it. A non-null frame arrives while a seek is armed at a positive
  target, with a canonical timestamp strictly above the target. With no cached frame, the
  call is exactly \<^verbatim>\<open>queue_frame\<close> on the frame with its timestamp set to the target, in a
  state where the seek is disarmed: with room and no send latch the frame is appended to
  the frames queue and the call returns 0, and in whatever state the call returns or
  waits the seek is disarmed. With a cached frame there is no clamp: the cached frame is
  queued first under its own canonical timestamp, then the new frame under its own.
\<close>

theorem async_queue_frame_clamps_overshoot:
  assumes armed: "seek_request d \<noteq> AV_NOPTS_VALUE"
    and pos: "0 <s seek_request d"
    and over: "seek_request d <s canonical_ts rs d frame"
  shows "(tmp_frame d = None \<longrightarrow>
            async_queue_frame rs d (Some frame) =
              queue_frame (d\<lparr>seek_request := AV_NOPTS_VALUE\<rparr>) (frame\<lparr>pts := seek_request d\<rparr>)
          \<and> (err_send (frames_queue d) = 0
                \<and> length (fifo (frames_queue d)) < nelem (frames_queue d) \<longrightarrow>
              async_queue_frame rs d (Some frame) =
                Done 0 (d\<lparr>seek_request := AV_NOPTS_VALUE,
                          frames_queue := (frames_queue d)
                            \<lparr>fifo := fifo (frames_queue d) @ [frame\<lparr>pts := seek_request d\<rparr>]\<rparr>\<rparr>))
          \<and> (\<forall>d'. state_of (async_queue_frame rs d (Some frame)) = Some d' \<longrightarrow>
                seek_request d' = AV_NOPTS_VALUE))
       \<and> (\<forall>c. tmp_frame d = Some c \<longrightarrow>
            async_queue_frame rs d (Some frame) =
              (case queue_frame (d\<lparr>tmp_frame := None\<rparr>) (c\<lparr>pts := canonical_ts rs d c\<rparr>) of
                 Done ret d' \<Rightarrow>
                   if ret < 0 then Done ret d'
                   else queue_frame (d'\<lparr>seek_request := AV_NOPTS_VALUE\<rparr>)
                          (frame\<lparr>pts := canonical_ts rs d frame\<rparr>)
               | Blocked d' \<Rightarrow> Blocked d'
               | Fault \<Rightarrow> Fault))"
proof -
  have reach: "\<not> canonical_ts rs d frame <s seek_request d"
    using over by (simp add: word_sless_alt)
  have a: "async_queue_frame rs d (Some frame) =
              queue_frame (d\<lparr>seek_request := AV_NOPTS_VALUE\<rparr>) (frame\<lparr>pts := seek_request d\<rparr>)"
    if "tmp_frame d = None"
    using kept_without_cache [OF that reach] armed pos over by simp
  have b: "seek_request d' = AV_NOPTS_VALUE"
    if "state_of (queue_frame (d\<lparr>seek_request := AV_NOPTS_VALUE\<rparr>) f) = Some d'" for f d'
    using that
    by (auto simp: queue_frame_def av_thread_message_queue_send_def split: if_splits)
  have c: "queue_frame (d\<lparr>seek_request := AV_NOPTS_VALUE\<rparr>) (frame\<lparr>pts := seek_request d\<rparr>) =
                Done 0 (d\<lparr>seek_request := AV_NOPTS_VALUE,
                          frames_queue := (frames_queue d)
                            \<lparr>fifo := fifo (frames_queue d) @ [frame\<lparr>pts := seek_request d\<rparr>]\<rparr>\<rparr>)"
    if "err_send (frames_queue d) = 0" "length (fifo (frames_queue d)) < nelem (frames_queue d)"
    using that by (simp add: queue_frame_room)
  show ?thesis
    using a b c kept_with_cache [OF _ reach] by auto
qed

theorem async_queue_frame_clamps_overshoot_witness:
  "seek_request (example_decoder 5000000) \<noteq> AV_NOPTS_VALUE
   \<and> 0 <s seek_request (example_decoder 5000000)
   \<and> seek_request (example_decoder 5000000)
        <s canonical_ts rescale_identity (example_decoder 5000000) (frame_at 6000000)
   \<and> tmp_frame (example_decoder 5000000) = None
   \<and> emitted_frames (async_queue_frame rescale_identity (example_decoder 5000000)
        (Some (frame_at 6000000))) = [(frame_at 6000000)\<lparr>pts := 5000000\<rparr>]
   \<and> tmp_frame (example_cached 5000000 4000000) = Some (frame_at 4000000)
   \<and> emitted_frames (async_queue_frame rescale_identity (example_cached 5000000 4000000)
        (Some (frame_at 6000000))) = [frame_at 4000000, frame_at 6000000]"
proof -
  have h1: "seek_request (example_decoder 5000000) \<noteq> AV_NOPTS_VALUE"
    and h1': "seek_request (example_cached 5000000 4000000) \<noteq> AV_NOPTS_VALUE"
    by (simp_all add: example_cached_def example_decoder_def AV_NOPTS_VALUE_def)
  have h2: "0 <s seek_request (example_decoder 5000000)"
    and h2': "0 <s seek_request (example_cached 5000000 4000000)"
    by (simp_all add: example_cached_def example_decoder_def word_sless_alt)
  have h3: "seek_request (example_decoder 5000000)
        <s canonical_ts rescale_identity (example_decoder 5000000) (frame_at 6000000)"
    and h3': "seek_request (example_cached 5000000 4000000)
        <s canonical_ts rescale_identity (example_cached 5000000 4000000) (frame_at 6000000)"
    by (simp_all add: canonical_ts_def rescale_identity_def get_best_effort_ts_def frame_at_def
        example_cached_def example_decoder_def AV_NOPTS_VALUE_def)
  show ?thesis
    using h1 h2 h3 async_queue_frame_clamps_overshoot [OF h1 h2 h3]
      async_queue_frame_clamps_overshoot [OF h1' h2' h3']
    by (simp add: async_queue_frame_def queue_cached_frame_def queue_frame_def
        av_thread_message_queue_send_def av_thread_message_queue_alloc_def Let_def
        canonical_ts_def rescale_identity_def get_best_effort_ts_def frame_at_def
        example_cached_def example_decoder_def AV_NOPTS_VALUE_def emitted_frames_def
        word_sless_alt)
qed

text \<open>
  C1 as stated fails in its consequence. A source whose only keyframe is at 0 restarts
  there: after a seek to 5 s the decoder delivers the frames at 0 s, 2 s, 4 s and 6 s.
  The frames queue then holds the 4 s frame and the 6 s frame under their own
  timestamps: no frame with timestamp 5 s exists to be returned.
\<close>

theorem seek_on_single_keyframe_counterexample:
  "map pts (emitted_frames (deliver_frames rescale_identity (example_decoder 5000000)
      [Some (frame_at 0), Some (frame_at 2000000), Some (frame_at 4000000),
       Some (frame_at 6000000)])) = [4000000, 6000000]
   \<and> (5000000 :: int64) \<notin> set [4000000, 6000000]"
  by (simp add: async_queue_frame_def queue_cached_frame_def queue_frame_def
      av_thread_message_queue_send_def av_thread_message_queue_alloc_def Let_def
      rescale_identity_def get_best_effort_ts_def frame_at_def
      example_decoder_def AV_NOPTS_VALUE_def emitted_frames_def word_sless_alt)

section \<open>A failed pop stops the producer\<close>

lemma send_latched:
  "err_send q < 0 \<Longrightarrow> av_thread_message_queue_send q frame = Done (err_send q) q"
  by (simp add: av_thread_message_queue_send_def)

lemma sink_apply_keeps_stopped:
  assumes "send_stopped actx" and "sink_apply actx op = Some actx'"
  shows "send_stopped actx'"
  using assms
  by (cases op)
     (auto simp: send_stopped_def sink_apply_def async_pop_frame_def
        av_thread_message_queue_send_def av_thread_message_queue_recv_def
        av_thread_message_queue_set_err_recv_def av_thread_message_queue_set_err_send_def
        split: option.splits outcome.splits if_splits list.splits)

lemma sink_run_keeps_stopped:
  "send_stopped actx \<Longrightarrow> sink_run actx ops = Some actx' \<Longrightarrow> send_stopped actx'"
proof (induction ops arbitrary: actx)
  case Nil
  then show ?case by simp
next
  case (Cons op ops)
  then show ?case
    by (auto split: option.splits dest: sink_apply_keeps_stopped)
qed

text \<open>
  C10. When the receive of \<^verbatim>\<open>async_pop_frame\<close> fails with a negative code \<open>ret\<close> (the
  end-of-file code included), the call returns null and installs \<open>ret\<close> as the send-side
  latch of the sink queue: a send on that queue fails with \<open>ret\<close> and adds nothing, and
  after any further sends, receive-side latches and pops, the send side is still latched
  with a negative code, so every later send fails too.
\<close>

theorem async_pop_frame_failure_latches_send:
  assumes sink: "sink_queue actx = Some q"
    and recv: "av_thread_message_queue_recv q = Done (ret, m) q'"
    and neg: "ret < 0"
  shows "async_pop_frame actx =
           Done None (actx\<lparr>sink_queue := Some (av_thread_message_queue_set_err_send q' ret)\<rparr>)
       \<and> err_send (av_thread_message_queue_set_err_send q' ret) = ret
       \<and> (\<forall>frame. av_thread_message_queue_send (av_thread_message_queue_set_err_send q' ret) frame =
                     Done ret (av_thread_message_queue_set_err_send q' ret))
       \<and> (\<forall>ops actx'.
             sink_run (actx\<lparr>sink_queue := Some (av_thread_message_queue_set_err_send q' ret)\<rparr>) ops
               = Some actx' \<longrightarrow>
             (\<exists>q2. sink_queue actx' = Some q2 \<and> err_send q2 < 0
                    \<and> (\<forall>frame. av_thread_message_queue_send q2 frame = Done (err_send q2) q2)))"
proof -
  let ?q = "av_thread_message_queue_set_err_send q' ret"
  let ?a = "actx\<lparr>sink_queue := Some ?q\<rparr>"
  have pop: "async_pop_frame actx = Done None ?a"
    using sink recv neg by (simp add: async_pop_frame_def)
  have latch: "err_send ?q = ret"
    by (simp add: av_thread_message_queue_set_err_send_def)
  have stopped: "send_stopped ?a"
    using neg by (simp add: send_stopped_def latch)
  have later: "\<exists>q2. sink_queue actx' = Some q2 \<and> err_send q2 < 0
                    \<and> (\<forall>frame. av_thread_message_queue_send q2 frame = Done (err_send q2) q2)"
    if "sink_run ?a ops = Some actx'" for ops actx'
  proof -
    have "send_stopped actx'"
      using stopped that by (rule sink_run_keeps_stopped)
    then show ?thesis
      by (auto simp: send_stopped_def send_latched split: option.splits)
  qed
  show ?thesis
    using pop latch neg later by (simp add: send_latched)
qed

theorem async_pop_frame_failure_latches_send_witness:
  "sink_queue (example_drained AVERROR_EOF) =
      Some (av_thread_message_queue_set_err_recv (av_thread_message_queue_alloc 3) AVERROR_EOF)
   \<and> av_thread_message_queue_recv
        (av_thread_message_queue_set_err_recv
           (av_thread_message_queue_alloc 3 :: AVFrame AVThreadMessageQueue) AVERROR_EOF) =
      Done (AVERROR_EOF, None)
        (av_thread_message_queue_set_err_recv (av_thread_message_queue_alloc 3) AVERROR_EOF)
   \<and> AVERROR_EOF < 0
   \<and> async_pop_frame (example_drained AVERROR_EOF) =
        Done None ((example_drained AVERROR_EOF)
          \<lparr>sink_queue := Some \<lparr>fifo = [], nelem = 3, err_send = AVERROR_EOF, err_recv = AVERROR_EOF\<rparr>\<rparr>)
   \<and> av_thread_message_queue_send
        \<lparr>fifo = [], nelem = 3, err_send = AVERROR_EOF, err_recv = AVERROR_EOF\<rparr> (frame_at 0) =
      Done AVERROR_EOF \<lparr>fifo = [], nelem = 3, err_send = AVERROR_EOF, err_recv = AVERROR_EOF\<rparr>"
proof -
  let ?q = "av_thread_message_queue_set_err_recv (av_thread_message_queue_alloc 3) AVERROR_EOF
              :: AVFrame AVThreadMessageQueue"
  have h1: "sink_queue (example_drained AVERROR_EOF) = Some ?q"
    by (simp add: example_drained_def)
  have h2: "av_thread_message_queue_recv ?q = Done (AVERROR_EOF, None) ?q"
    by (simp add: av_thread_message_queue_recv_def av_thread_message_queue_set_err_recv_def
        av_thread_message_queue_alloc_def AVERROR_EOF_def)
  have h3: "AVERROR_EOF < 0"
    by (simp add: AVERROR_EOF_def)
  show ?thesis
    using h1 h2 h3 async_pop_frame_failure_latches_send [OF h1 h2 h3]
    by (simp add: av_thread_message_queue_set_err_recv_def av_thread_message_queue_set_err_send_def
        av_thread_message_queue_alloc_def av_thread_message_queue_send_def)
qed

section \<open>Starting and stopping twice\<close>












text \<open>
  Two starts in worlds that answer differently: when \<^verbatim>\<open>pthread_create\<close> fails, the first
  start returns the error and leaves the context not started (with its sink queue
  allocated); a second start in a world where the thread can be created then starts the
  context.
\<close>

lemma second_start_after_failed_start:
  "async_start env_no_thread example_context 0 =
     (- 11, Some (example_context\<lparr>sink_queue := Some (av_thread_message_queue_alloc 3)\<rparr>))
   \<and> start_twice env_no_thread env_ok example_context 0 0 =
     (0, Some \<lparr>reader = example_reader\<lparr>started := 1, tid_running := True\<rparr>,
               sink_queue = Some (av_thread_message_queue_alloc 3)\<rparr>)"
  by (simp add: async_start_def Let_def start_twice_def env_ok_def env_no_thread_def
      example_context_def example_reader_def AVERROR_def EAGAIN_def)

section \<open>Seek messages in the packet queue\<close>

lemma push_seek_message_success:
  assumes "push_seek_message ok q ts = Done ret q'" and "ret = 0"
  shows "fifo q' = [MSG_SEEK ts] \<and> err_send q' = 0"
  using assms
  by (auto simp: push_seek_message_def av_thread_message_flush_def
      av_thread_message_queue_send_def av_thread_message_queue_set_err_recv_def AVERROR_def
      ENOMEM_def Let_def split: if_splits)

lemma push_seek_message_is_flush_then_send:
  assumes "seek_pending s = None"
  shows "pktq_run s [Reader_flush ts, Reader_send_seek] =
           (case push_seek_message True (pq s) ts of
              Done ret q \<Rightarrow> Some (s\<lparr>pq := q\<rparr>)
            | Blocked q \<Rightarrow> None
            | Fault \<Rightarrow> None)"
  using assms
  by (simp add: pktq_apply_def pktq_sent_def push_seek_message_def av_thread_message_flush_def
      av_thread_message_queue_send_def av_thread_message_queue_set_err_recv_def Let_def)

lemma in_set_tl: "m \<in> set (tl ms) \<Longrightarrow> m \<in> set ms"
  by (cases ms) auto

lemma pktq_apply_inv:
  assumes "pktq_inv s" and "pktq_apply s op = Some s'"
  shows "pktq_inv s'"
proof (cases op)
  case (Reader_flush ts)
  then show ?thesis
    using assms
    by (auto simp: pktq_inv_def pktq_apply_def av_thread_message_flush_def split: if_splits)
next
  case Reader_send_seek
  then show ?thesis
    using assms
    by (auto simp: pktq_inv_def pktq_apply_def pktq_sent_def av_thread_message_queue_send_def
        av_thread_message_queue_set_err_recv_def split: if_splits option.splits)
next
  case (Reader_send_packet pkt)
  then show ?thesis
    using assms
    by (cases "fifo (pq s)")
       (auto simp: pktq_inv_def pktq_apply_def pktq_sent_def av_thread_message_queue_send_def
        av_thread_message_queue_set_err_recv_def split: if_splits option.splits)
next
  case (Reader_set_err_recv e)
  then show ?thesis
    using assms
    by (auto simp: pktq_inv_def pktq_apply_def av_thread_message_queue_set_err_recv_def
        split: if_splits)
next
  case Decoder_recv
  then show ?thesis
    using assms
    by (cases "fifo (pq s)")
       (auto simp: pktq_inv_def pktq_apply_def av_thread_message_queue_recv_def
        av_thread_message_queue_set_err_send_def
        split: if_splits option.splits list.splits dest: in_set_tl)
next
  case (Decoder_set_err_send e)
  then show ?thesis
    using assms
    by (auto simp: pktq_inv_def pktq_apply_def av_thread_message_queue_set_err_send_def)
qed

lemma pktq_run_inv:
  "pktq_inv s \<Longrightarrow> pktq_run s ops = Some s' \<Longrightarrow> pktq_inv s'"
proof (induction ops arbitrary: s)
  case Nil
  then show ?case by simp
next
  case (Cons op ops)
  then show ?case
    by (auto split: option.splits dest: pktq_apply_inv)
qed

lemma pktq_inv_init: "pktq_inv (pktq_init n)"
  by (simp add: pktq_inv_def pktq_init_def av_thread_message_queue_alloc_def)

lemma seek_at_head_only:
  assumes "\<forall>m \<in> set (tl ms). \<not> is_seek m"
  shows "length (filter is_seek ms) \<le> 1"
    and "ms = xs @ MSG_PACKET p # ys @ MSG_PACKET p' # zs \<Longrightarrow> filter is_seek ys = []"
proof -
  have t: "filter is_seek (tl ms) = []"
    using assms by (simp add: filter_empty_conv)
  show "length (filter is_seek ms) \<le> 1"
    using t by (cases ms) auto
  assume ms: "ms = xs @ MSG_PACKET p # ys @ MSG_PACKET p' # zs"
  have "set ys \<subseteq> set (tl ms)"
    unfolding ms by (cases xs) auto
  then show "filter is_seek ys = []"
    using assms by (auto simp: filter_empty_conv)
qed

text \<open>
  C7. In every state the packet queue reaches from its allocation, under any order of
  the reader's and the decoder's operations on it, the queue holds one seek message at
  most, at its head, so none lies between two packets (and the queue is empty while the
  reader is between the flush and the send of a seek message). And when
  \<^verbatim>\<open>push_seek_message\<close> returns 0, the queue holds the seek message it sent and nothing
  else.
\<close>

theorem packet_queue_holds_one_seek:
  assumes run: "pktq_run (pktq_init n) ops = Some s"
    and push: "push_seek_message ok q ts = Done ret q'"
    and ok: "ret = 0"
  shows "length (filter is_seek (fifo (pq s))) \<le> 1
       \<and> (\<forall>m \<in> set (tl (fifo (pq s))). \<not> is_seek m)
       \<and> (\<forall>xs p ys p' zs. fifo (pq s) = xs @ MSG_PACKET p # ys @ MSG_PACKET p' # zs \<longrightarrow>
             length (filter is_seek ys) \<le> 1 \<and> filter is_seek ys = [])
       \<and> (seek_pending s \<noteq> None \<longrightarrow> fifo (pq s) = [])
       \<and> fifo q' = [MSG_SEEK ts]
       \<and> filter is_seek (fifo q') = [MSG_SEEK ts]"
proof -
  have inv: "pktq_inv s"
    using pktq_inv_init run by (rule pktq_run_inv)
  then have tail: "\<forall>m \<in> set (tl (fifo (pq s))). \<not> is_seek m"
    and pending: "seek_pending s \<noteq> None \<longrightarrow> fifo (pq s) = []"
    by (simp_all add: pktq_inv_def)
  have one: "length (filter is_seek (fifo (pq s))) \<le> 1"
    using tail by (rule seek_at_head_only(1))
  have between: "\<forall>xs p ys p' zs. fifo (pq s) = xs @ MSG_PACKET p # ys @ MSG_PACKET p' # zs \<longrightarrow>
             length (filter is_seek ys) \<le> 1 \<and> filter is_seek ys = []"
    using seek_at_head_only(2) [OF tail] by auto
  have sent: "fifo q' = [MSG_SEEK ts]"
    using push_seek_message_success [OF push ok] by simp
  show ?thesis
    using one tail between pending sent by simp
qed

theorem packet_queue_holds_one_seek_witness:
  "pktq_run (pktq_init 5)
     [Reader_send_packet example_packet, Reader_flush 7000000, Reader_send_seek,
      Reader_send_packet example_packet, Reader_send_packet example_packet] =
     Some \<lparr>pq = example_pktq [MSG_SEEK 7000000, MSG_PACKET example_packet, MSG_PACKET example_packet],
           seek_pending = None\<rparr>
   \<and> push_seek_message True
        (example_pktq [MSG_SEEK 7000000, MSG_PACKET example_packet, MSG_PACKET example_packet])
        8000000 = Done 0 (example_pktq [MSG_SEEK 8000000])
   \<and> length (filter is_seek
         [MSG_SEEK 7000000, MSG_PACKET example_packet, MSG_PACKET example_packet]) \<le> 1
   \<and> filter is_seek (fifo (example_pktq [MSG_SEEK 8000000])) = [MSG_SEEK 8000000]"
proof -
  let ?s = "\<lparr>pq = example_pktq [MSG_SEEK 7000000, MSG_PACKET example_packet, MSG_PACKET example_packet],
           seek_pending = None\<rparr>"
  have run: "pktq_run (pktq_init 5)
     [Reader_send_packet example_packet, Reader_flush 7000000, Reader_send_seek,
      Reader_send_packet example_packet, Reader_send_packet example_packet] = Some ?s"
    by (simp add: pktq_init_def pktq_apply_def pktq_sent_def example_pktq_def
        av_thread_message_queue_alloc_def av_thread_message_queue_send_def
        av_thread_message_flush_def)
  have push: "push_seek_message True
        (example_pktq [MSG_SEEK 7000000, MSG_PACKET example_packet, MSG_PACKET example_packet])
        8000000 = Done 0 (example_pktq [MSG_SEEK 8000000])"
    by (simp add: push_seek_message_def example_pktq_def av_thread_message_queue_send_def
        av_thread_message_flush_def Let_def)
  from packet_queue_holds_one_seek [OF run push refl]
  have "length (filter is_seek (fifo (pq ?s))) \<le> 1"
    and "filter is_seek (fifo (example_pktq [MSG_SEEK 8000000])) = [MSG_SEEK 8000000]"
    by blast+
  then show ?thesis
    using run push by (simp add: example_pktq_def)
qed

section \<open>The reader's turn with a pending seek\<close>






section \<open>A failed decode submission\<close>

text \<open>
  C8. When \<^verbatim>\<open>vtdec_push_packet\<close> submits a packet (fewer than three in flight, a
  non-empty packet, a sample buffer built) and the decode call returns a non-zero status:
  after the submission the decoder locks its mutex, stores 0 into the in-flight counter,
  signals the condition variable and unlocks, and the function returns the External
  error, a negative code. The packet has been submitted once. In the decoder worker the
  turn that received the packet leaves the loop with that code, the packet gone from the
  packet queue, so it is not submitted again.
\<close>

theorem vtdec_push_packet_failed_submission:
  assumes room: "nb_queued vt < 3"
    and size: "pkt_size pkt \<noteq> 0"
    and sample: "sample_buf_ok env pkt"
    and status: "decode_status env pkt \<noteq> 0"
  shows "vtdec_push_packet env vt pkt =
           Done AVERROR_EXTERNAL
             (vt\<lparr>nb_queued := 0,
                 events := events vt @
                   [Vt_lock, Vt_unlock,
                    Vt_lock, Vt_store_nb_queued (nb_queued vt + 1), Vt_cond_signal, Vt_unlock,
                    Vt_decode_frame pkt,
                    Vt_lock, Vt_store_nb_queued 0, Vt_cond_signal, Vt_unlock]\<rparr>)
       \<and> AVERROR_EXTERNAL < 0
       \<and> (\<forall>d q. av_thread_message_queue_recv (pkt_queue d) = Done (0, Some (MSG_PACKET pkt)) q \<longrightarrow>
             (\<exists>vt'. decoder_thread_iter (decoder_vt_push_packet env) decoder_flush vt d =
                      Done (Break AVERROR_EXTERNAL) (vt', d\<lparr>pkt_queue := q\<rparr>)
                    \<and> nb_queued vt' = 0
                    \<and> length (filter (\<lambda>e. e = Vt_decode_frame pkt) (events vt')) =
                        length (filter (\<lambda>e. e = Vt_decode_frame pkt) (events vt)) + 1
                    \<and> fifo (pkt_queue d) = MSG_PACKET pkt # fifo q))"
proof -
  let ?vt' = "vt\<lparr>nb_queued := 0,
                 events := events vt @
                   [Vt_lock, Vt_unlock,
                    Vt_lock, Vt_store_nb_queued (nb_queued vt + 1), Vt_cond_signal, Vt_unlock,
                    Vt_decode_frame pkt,
                    Vt_lock, Vt_store_nb_queued 0, Vt_cond_signal, Vt_unlock]\<rparr>"
  have push: "vtdec_push_packet env vt pkt = Done AVERROR_EXTERNAL ?vt'"
    using assms by (simp add: vtdec_push_packet_def update_nb_queue_def Let_def)
  have neg: "AVERROR_EXTERNAL < 0"
    by (simp add: AVERROR_EXTERNAL_def)
  have iter: "decoder_thread_iter (decoder_vt_push_packet env) decoder_flush vt d =
                Done (Break AVERROR_EXTERNAL) (?vt', d\<lparr>pkt_queue := q\<rparr>)"
    if "av_thread_message_queue_recv (pkt_queue d) = Done (0, Some (MSG_PACKET pkt)) q" for d q
    using that neg by (simp add: decoder_thread_iter_def decoder_vt_push_packet_def push)
  have gone: "fifo (pkt_queue d) = MSG_PACKET pkt # fifo q"
    if "av_thread_message_queue_recv (pkt_queue d) = Done (0, Some (MSG_PACKET pkt)) q" for d q
    using that
    by (auto simp: av_thread_message_queue_recv_def split: if_splits list.splits)
  have worker: "\<forall>d q. av_thread_message_queue_recv (pkt_queue d) = Done (0, Some (MSG_PACKET pkt)) q \<longrightarrow>
             (\<exists>vt'. decoder_thread_iter (decoder_vt_push_packet env) decoder_flush vt d =
                      Done (Break AVERROR_EXTERNAL) (vt', d\<lparr>pkt_queue := q\<rparr>)
                    \<and> nb_queued vt' = 0
                    \<and> length (filter (\<lambda>e. e = Vt_decode_frame pkt) (events vt')) =
                        length (filter (\<lambda>e. e = Vt_decode_frame pkt) (events vt)) + 1
                    \<and> fifo (pkt_queue d) = MSG_PACKET pkt # fifo q)"
  proof (intro allI impI)
    fix d :: async_decoder and q
    assume r: "av_thread_message_queue_recv (pkt_queue d) = Done (0, Some (MSG_PACKET pkt)) q"
    show "\<exists>vt'. decoder_thread_iter (decoder_vt_push_packet env) decoder_flush vt d =
                      Done (Break AVERROR_EXTERNAL) (vt', d\<lparr>pkt_queue := q\<rparr>)
                    \<and> nb_queued vt' = 0
                    \<and> length (filter (\<lambda>e. e = Vt_decode_frame pkt) (events vt')) =
                        length (filter (\<lambda>e. e = Vt_decode_frame pkt) (events vt)) + 1
                    \<and> fifo (pkt_queue d) = MSG_PACKET pkt # fifo q"
      using iter [OF r] gone [OF r] by (intro exI [of _ ?vt']) simp
  qed
  show ?thesis
    by (intro conjI) (fact push neg worker)+
qed

theorem vtdec_push_packet_failed_submission_witness:
  "nb_queued (example_vt []) < 3
   \<and> pkt_size example_packet \<noteq> 0
   \<and> sample_buf_ok (env_decode_status (- 12909)) example_packet
   \<and> decode_status (env_decode_status (- 12909)) example_packet \<noteq> 0
   \<and> vtdec_push_packet (env_decode_status (- 12909)) (example_vt []) example_packet =
        Done AVERROR_EXTERNAL
          ((example_vt [])\<lparr>nb_queued := 0,
             events := [Vt_lock, Vt_unlock,
                        Vt_lock, Vt_store_nb_queued 2, Vt_cond_signal, Vt_unlock,
                        Vt_decode_frame example_packet,
                        Vt_lock, Vt_store_nb_queued 0, Vt_cond_signal, Vt_unlock]\<rparr>)
   \<and> decoder_thread_iter (decoder_vt_push_packet (env_decode_status (- 12909)))
        (\<lambda>c d. Done () (c, d)) (example_vt [])
        ((example_decoder AV_NOPTS_VALUE)\<lparr>pkt_queue := example_pktq [MSG_PACKET example_packet]\<rparr>) =
       Done (Break AVERROR_EXTERNAL)
         ((example_vt [])\<lparr>nb_queued := 0,
             events := [Vt_lock, Vt_unlock,
                        Vt_lock, Vt_store_nb_queued 2, Vt_cond_signal, Vt_unlock,
                        Vt_decode_frame example_packet,
                        Vt_lock, Vt_store_nb_queued 0, Vt_cond_signal, Vt_unlock]\<rparr>,
          (example_decoder AV_NOPTS_VALUE)\<lparr>pkt_queue := example_pktq []\<rparr>)"
proof -
  have h1: "nb_queued (example_vt []) < 3"
    and h2: "pkt_size example_packet \<noteq> 0"
    and h3: "sample_buf_ok (env_decode_status (- 12909)) example_packet"
    and h4: "decode_status (env_decode_status (- 12909)) example_packet \<noteq> 0"
    by (simp_all add: example_vt_def example_packet_def env_decode_status_def)
  have ev: "events (example_vt []) = []" and nq: "nb_queued (example_vt []) = 1"
    by (simp_all add: example_vt_def)
  from vtdec_push_packet_failed_submission [OF h1 h2 h3 h4, THEN conjunct1]
  have "vtdec_push_packet (env_decode_status (- 12909)) (example_vt []) example_packet =
        Done AVERROR_EXTERNAL
          ((example_vt [])\<lparr>nb_queued := 0,
             events := [Vt_lock, Vt_unlock,
                        Vt_lock, Vt_store_nb_queued 2, Vt_cond_signal, Vt_unlock,
                        Vt_decode_frame example_packet,
                        Vt_lock, Vt_store_nb_queued 0, Vt_cond_signal, Vt_unlock]\<rparr>)"
    by (simp add: ev nq)
  then show ?thesis
    using h1 h2 h3 h4
    by (simp add: decoder_thread_iter_def decoder_vt_push_packet_def
        av_thread_message_queue_recv_def example_pktq_def AVERROR_EXTERNAL_def)
qed

section \<open>Insertion into the reorder list\<close>












section \<open>The governor's operations\<close>

text \<open>
  C5, as the code has it. \<^verbatim>\<open>bufcount_update_max\<close> adds its delta to \<open>refmax\<close> and
  \<^verbatim>\<open>bufcount_update_ref\<close> adds its delta to \<open>refcount\<close>, whatever the delta: after either,
  \<open>0 \<le> refcount \<le> refmax\<close> holds exactly when the new values satisfy it. What the
  governor enforces is on the positive \<^verbatim>\<open>bufcount_update_ref\<close>: when the raised count
  reaches \<open>refmax\<close> the call waits; a waiting call that takes the mutex again keeps
  waiting while \<open>refmax \<le> refcount\<close>; and whenever such a call returns, at once or from
  its wait, \<open>refcount < refmax\<close> holds. A governor is destroyed only at a count of zero,
  and no operation runs on a destroyed one.
\<close>

theorem governor_operations:
  assumes step: "gov_apply s op = Some s'"
  shows "(\<forall>n. op = Op_update_max n \<longrightarrow>
            refmax (gov s') = refmax (gov s) + n \<and> refcount (gov s') = refcount (gov s)
            \<and> waiting s' = waiting s
            \<and> (gov_invariant (gov s') \<longleftrightarrow>
                 0 \<le> refcount (gov s) \<and> refcount (gov s) \<le> refmax (gov s) + n))
       \<and> (\<forall>n. op = Op_update_ref n \<longrightarrow>
            refcount (gov s') = refcount (gov s) + n \<and> refmax (gov s') = refmax (gov s)
            \<and> waiting s' = (if 0 < n \<and> refmax (gov s) \<le> refcount (gov s) + n
                             then waiting s + 1 else waiting s)
            \<and> (gov_invariant (gov s') \<longleftrightarrow>
                 0 \<le> refcount (gov s) + n \<and> refcount (gov s) + n \<le> refmax (gov s)))
       \<and> (op = Op_wake \<longrightarrow>
            refcount (gov s') = refcount (gov s) \<and> refmax (gov s') = refmax (gov s)
            \<and> 0 < waiting s
            \<and> waiting s' = (if refmax (gov s) \<le> refcount (gov s)
                             then waiting s else waiting s - 1))
       \<and> (returns_positive_ref s op s' \<longrightarrow> refcount (gov s') < refmax (gov s'))
       \<and> \<not> destroyed (gov s)
       \<and> (destroyed (gov s') \<longrightarrow> refcount (gov s') = 0)"
proof (cases op)
  case (Op_update_max n)
  then show ?thesis
    using step
    by (auto simp: gov_apply_def bufcount_update_max_def gov_invariant_def
        returns_positive_ref_def split: if_splits)
next
  case (Op_update_ref n)
  then show ?thesis
    using step
    by (auto simp: gov_apply_def bufcount_update_ref_def bufcount_update_ref_wait_def
        bufcount_update_ref_end_def gov_invariant_def returns_positive_ref_def Let_def
        split: if_splits)
next
  case Op_wake
  then show ?thesis
    using step
    by (auto simp: gov_apply_def bufcount_update_ref_wait_def bufcount_update_ref_end_def
        gov_invariant_def returns_positive_ref_def split: if_splits)
qed

theorem governor_operations_witness:
  "gov_run gov_init [Op_update_ref 1, Op_update_ref 1, Op_update_ref 1, Op_wake] =
     Some (example_gov 4 4 1)
   \<and> gov_apply (example_gov 4 4 1) (Op_update_ref (- 1)) = Some (example_gov 3 4 1)
   \<and> gov_apply (example_gov 3 4 1) Op_wake = Some (example_gov 3 4 0)
   \<and> returns_positive_ref (example_gov 3 4 1) Op_wake (example_gov 3 4 0)
   \<and> refcount (gov (example_gov 3 4 0)) < refmax (gov (example_gov 3 4 0))"
proof -
  have run: "gov_run gov_init [Op_update_ref 1, Op_update_ref 1, Op_update_ref 1, Op_wake] =
     Some (example_gov 4 4 1)"
    by (simp add: gov_init_def gov_apply_def bufcount_create_def bufcount_update_ref_def
        bufcount_update_ref_wait_def bufcount_update_ref_end_def example_gov_def Let_def)
  have rel: "gov_apply (example_gov 4 4 1) (Op_update_ref (- 1)) = Some (example_gov 3 4 1)"
    by (simp add: gov_apply_def bufcount_update_ref_def
        bufcount_update_ref_wait_def bufcount_update_ref_end_def example_gov_def Let_def)
  have wake: "gov_apply (example_gov 3 4 1) Op_wake = Some (example_gov 3 4 0)"
    by (simp add: gov_apply_def bufcount_update_ref_wait_def bufcount_update_ref_end_def
        example_gov_def)
  have ret: "returns_positive_ref (example_gov 3 4 1) Op_wake (example_gov 3 4 0)"
    by (simp add: returns_positive_ref_def example_gov_def)
  have "refcount (gov (example_gov 3 4 0)) < refmax (gov (example_gov 3 4 0))"
    using governor_operations [OF wake] ret by blast
  then show ?thesis
    using run rel wake ret by simp
qed

text \<open>
  C5 as stated fails. Four frames enter the reorder list, each with
  \<^verbatim>\<open>bufcount_update_max(+1)\<close> and \<^verbatim>\<open>bufcount_update_ref(+1)\<close>, then the list is emptied
  with \<^verbatim>\<open>bufcount_update_max(-4)\<close>: the count is 5 and the maximum 4. And a
  \<^verbatim>\<open>bufcount_update_ref(-2)\<close> on a fresh governor leaves the count at -1.
\<close>

theorem governor_invariant_counterexample:
  "gov_run gov_init
     [Op_update_max 1, Op_update_ref 1, Op_update_max 1, Op_update_ref 1,
      Op_update_max 1, Op_update_ref 1, Op_update_max 1, Op_update_ref 1,
      Op_update_max (- 4)] = Some (example_gov 5 4 0)
   \<and> \<not> gov_invariant (gov (example_gov 5 4 0))
   \<and> gov_run gov_init [Op_update_ref (- 2)] = Some (example_gov (- 1) 4 0)
   \<and> \<not> gov_invariant (gov (example_gov (- 1) 4 0))"
  by (simp add: gov_init_def gov_apply_def bufcount_create_def bufcount_update_max_def
      bufcount_update_ref_def bufcount_update_ref_wait_def bufcount_update_ref_end_def
      example_gov_def gov_invariant_def Let_def)

end
